theory Spec2Isabelle
  imports Complex_Main "HOL-Library.Word"
begin

unbundle bit_operations_syntax

section \<open>Python values and exceptions\<close>

text \<open>
  Python integers are unbounded and are modelled by \<open>int\<close>: \<open>>>\<close> is \<open>drop_bit\<close>,
  \<open><<\<close> is \<open>push_bit\<close>, and \<open>&\<close>, \<open>|\<close> are \<open>AND\<close>, \<open>OR\<close> (two's complement with
  infinite sign extension, as in Python). Exceptions are values of the datatype
  \<open>error\<close>; the first four are the subclasses of \<open>ElsterError\<close> of the program, the
  others are the built-in exceptions that the modelled code can raise.
\<close>

datatype error =
    ElsterDataSizeError
  | ElsterDataByte2Error
  | ElsterInvalidName
  | ElsterReadTimedOut
  | TypeError
  | IndexError
  | KeyError
  | ValueError
  | OverflowError

text \<open>\<open>except ElsterError\<close> catches exactly the subclasses of \<open>ElsterError\<close>.\<close>

fun is_ElsterError :: "error \<Rightarrow> bool" where
  "is_ElsterError ElsterDataSizeError = True"
| "is_ElsterError ElsterDataByte2Error = True"
| "is_ElsterError ElsterInvalidName = True"
| "is_ElsterError ElsterReadTimedOut = True"
| "is_ElsterError _ = False"

text \<open>Sequencing of a computation that may raise.\<close>

definition bind_r :: "error + 'a \<Rightarrow> ('a \<Rightarrow> error + 'b) \<Rightarrow> error + 'b" where
  "bind_r m f = (case m of Inl e \<Rightarrow> Inl e | Inr x \<Rightarrow> f x)"

text \<open>\<open>data[i]\<close> for a constant, non-negative index: IndexError out of range.\<close>

definition item :: "'a list \<Rightarrow> nat \<Rightarrow> error + 'a" where
  "item xs i = (if i < length xs then Inr (xs ! i) else Inl IndexError)"

section \<open>Frame codec\<close>

definition TYPE_REQUEST :: int where
  "TYPE_REQUEST = 0x01"

definition TYPE_RESPONSE :: int where
  "TYPE_RESPONSE = 0x02"

text \<open>
  \<open>encode_elster_data(receiver, register, value=None)\<close>. The list is created with
  five or seven zeros and then assigned index by index; every assigned index is in
  range of the list created in the same branch.
\<close>

definition encode_elster_data :: "int \<Rightarrow> int \<Rightarrow> int option \<Rightarrow> int list" where
  "encode_elster_data receiver register val =
     (let msg_type = (if val = None then TYPE_REQUEST else TYPE_RESPONSE);
          data = (if val = None then replicate 5 (0::int) else replicate 7 0);
          data = data[0 := (drop_bit 3 receiver AND 0xf0) OR (msg_type AND 0x0f)];
          data = data[1 := receiver AND 0x7f];
          data = data[2 := 0xfa];
          data = data[3 := drop_bit 8 register AND 0xff];
          data = data[4 := register AND 0xff]
      in case val of
           None \<Rightarrow> data
         | Some v \<Rightarrow> data[5 := drop_bit 8 v AND 0xff, 6 := v AND 0xff])"

text \<open>
  \<open>decode_elster_data(data, size=7)\<close> returns the tuple
  \<open>(msg_type, receiver, register, value)\<close> or raises. Reading \<open>data[i]\<close> beyond the
  end of the list raises IndexError. The parameter \<open>size\<close> is written \<open>sz\<close>.
\<close>

definition decode_elster_data ::
    "int list \<Rightarrow> int \<Rightarrow> error + (int \<times> int \<times> int \<times> int option)" where
  "decode_elster_data data sz =
     (if int (length data) \<noteq> sz then Inl ElsterDataSizeError
      else bind_r (item data 2) (\<lambda>d2.
        if d2 \<noteq> 0xfa then Inl ElsterDataByte2Error
        else bind_r (item data 0) (\<lambda>d0.
             bind_r (item data 1) (\<lambda>d1.
             bind_r (item data 3) (\<lambda>d3.
             bind_r (item data 4) (\<lambda>d4.
               let msg_type = d0 AND 0x0f;
                   receiver = push_bit 3 (d0 AND 0xf0) OR (d1 AND 0x7f);
                   register = push_bit 8 (d3 AND 0xff) OR (d4 AND 0xff)
               in if length data = 7
                  then bind_r (item data 5) (\<lambda>d5.
                       bind_r (item data 6) (\<lambda>d6.
                         Inr (msg_type, receiver, register,
                              Some (push_bit 8 (d5 AND 0xff) OR (d6 AND 0xff)))))
                  else Inr (msg_type, receiver, register, None)))))))"

section \<open>Strings: \<open>str.split\<close>, \<open>int(s, 16)\<close>, \<open>str(int)\<close> and \<open>format(float)\<close>\<close>

text \<open>\<open>s.split(".")\<close>: the parts between the dots, \<open>n + 1\<close> parts for \<open>n\<close> dots.\<close>

fun split_dot :: "string \<Rightarrow> string list" where
  "split_dot [] = [] # []"
| "split_dot (c # cs) =
     (if c = CHR ''.'' then [] # split_dot cs
      else (case split_dot cs of p # ps \<Rightarrow> (c # p) # ps | [] \<Rightarrow> [c] # []))"

text \<open>
  A character of a string is a code point from 0 to 255; code points beyond 255 are
  not modelled. \<open>int(s, 16)\<close> as CPython parses it: white space around the literal is
  skipped (the code points 9 to 13 and 32, and the Unicode white space U+0085 and
  U+00A0; not the separators 28 to 31, which \<open>str.strip\<close> removes but \<open>int\<close>
  rejects), then
  an optional sign, an optional prefix \<open>0x\<close> or \<open>0X\<close> (after which one underscore may
  follow), then hexadecimal digits of either case, single underscores allowed between
  digits. Anything else raises ValueError.
\<close>

definition is_space :: "char \<Rightarrow> bool" where
  "is_space c =
     (let n = (of_char c :: nat) in (9 \<le> n \<and> n \<le> 13) \<or> n = 32 \<or> n = 133 \<or> n = 160)"

definition hex_digit :: "char \<Rightarrow> int option" where
  "hex_digit c =
     (let n = (of_char c :: nat)
      in if 48 \<le> n \<and> n \<le> 57 then Some (int n - 48)
         else if 97 \<le> n \<and> n \<le> 102 then Some (int n - 87)
         else if 65 \<le> n \<and> n \<le> 70 then Some (int n - 55)
         else None)"

text \<open>The flag says whether the previous character was a digit.\<close>

fun hex_digits :: "int \<Rightarrow> bool \<Rightarrow> string \<Rightarrow> error + int" where
  "hex_digits acc prev [] = (if prev then Inr acc else Inl ValueError)"
| "hex_digits acc prev (c # cs) =
     (if c = CHR ''_'' then (if prev then hex_digits acc False cs else Inl ValueError)
      else (case hex_digit c of
              None \<Rightarrow> Inl ValueError
            | Some d \<Rightarrow> hex_digits (16 * acc + d) True cs))"

definition py_int16 :: "string \<Rightarrow> error + int" where
  "py_int16 s =
     (let s1 = dropWhile is_space s;
          neg = (case s1 of c # cs \<Rightarrow> c = CHR ''-'' | [] \<Rightarrow> False);
          s2 = (case s1 of c # cs \<Rightarrow> if c = CHR ''+'' \<or> c = CHR ''-'' then cs else s1
                | [] \<Rightarrow> s1);
          s3 = (case s2 of
                  c0 # c1 # cs \<Rightarrow>
                    if c0 = CHR ''0'' \<and> (c1 = CHR ''x'' \<or> c1 = CHR ''X'')
                    then (case cs of u # cs' \<Rightarrow> if u = CHR ''_'' then cs' else cs
                          | [] \<Rightarrow> cs)
                    else s2
                | _ \<Rightarrow> s2);
          s4 = rev (dropWhile is_space (rev s3))
      in bind_r (hex_digits 0 False s4) (\<lambda>n. Inr (if neg then - n else n)))"

text \<open>
  What the specification calls a hexadecimal integer: the value of a string of
  hexadecimal digits, most significant digit first.
\<close>

definition hex_digit_val :: "char \<Rightarrow> int" where
  "hex_digit_val c = (case hex_digit c of Some d \<Rightarrow> d | None \<Rightarrow> 0)"

definition hex_value :: "string \<Rightarrow> int" where
  "hex_value s = foldl (\<lambda>a c. 16 * a + hex_digit_val c) 0 s"

text \<open>\<open>str(n)\<close> and \<open>f"{n:d}"\<close> for an integer: decimal digits, with a minus sign.\<close>

definition digit_char :: "nat \<Rightarrow> char" where
  "digit_char d = ''0123456789'' ! d"

fun dec_digits :: "nat \<Rightarrow> string" where
  "dec_digits n = (if n < 10 then [digit_char n] else dec_digits (n div 10) @ [digit_char (n mod 10)])"

declare dec_digits.simps [simp del]

definition int_str :: "int \<Rightarrow> string" where
  "int_str i = (if i < 0 then CHR ''-'' # dec_digits (nat (- i)) else dec_digits (nat i))"

text \<open>
  A Python float is a rational number (a double). \<open>f"{x:.pf}"\<close> renders the exact
  value of the double \<open>x\<close>, correctly rounded (ties to even) to \<open>p\<close> fractional
  digits; the sign is that of \<open>x\<close>.
\<close>

definition round_half_even :: "rat \<Rightarrow> int" where
  "round_half_even x =
     (let f = \<lfloor>x\<rfloor>; d = x - of_int f
      in if d < 1 / 2 then f else if 1 / 2 < d then f + 1
         else if even f then f else f + 1)"

definition zero_pad :: "nat \<Rightarrow> string \<Rightarrow> string" where
  "zero_pad w s = replicate (w - length s) (CHR ''0'') @ s"

definition format_f :: "nat \<Rightarrow> rat \<Rightarrow> string" where
  "format_f p x =
     (let n = nat (round_half_even (\<bar>x\<bar> * 10 ^ p));
          body = dec_digits (n div 10 ^ p) @
                 (if p = 0 then [] else CHR ''.'' # zero_pad p (dec_digits (n mod 10 ^ p)))
      in if x < 0 then CHR ''-'' # body else body)"

text \<open>
  The division \<open>value / 10.0\<close> is IEEE 754 double division. It is a parameter
  \<open>fd\<close> of the model; \<open>float_close q x\<close> says that the double \<open>q\<close> is within the
  relative error \<open>1 / 2 ^ 53\<close> of the exact quotient \<open>x\<close>, as round-to-nearest gives.
  \<open>exact_div\<close> is the division that makes no rounding error at all.
\<close>

text \<open>
  Before an integer is divided by a float it is converted to a double, which raises
  OverflowError when the integer rounds to a double beyond the largest one.
\<close>

definition float_overflow :: "int \<Rightarrow> bool" where
  "float_overflow v = (2 ^ 1024 - 2 ^ 970 \<le> \<bar>v\<bar>)"

definition float_close :: "rat \<Rightarrow> rat \<Rightarrow> bool" where
  "float_close q x = (\<bar>q - x\<bar> \<le> \<bar>x\<bar> / 2 ^ 53)"

definition exact_div :: "rat \<Rightarrow> rat \<Rightarrow> rat" where
  "exact_div x y = x / y"

section \<open>Protocol message\<close>

text \<open>
  \<open>can.Message\<close>, reduced to the two attributes the program uses. An attribute of a
  Python object can hold None, and \<open>ElsterMessage\<close> passes its \<open>sender\<close> on as
  \<open>arbitration_id\<close>, so the identifier is optional.
\<close>

record can_message =
  arbitration_id :: "int option"
  data :: "int list"

text \<open>
  \<open>class ElsterMessage(can.Message)\<close>: the attributes \<open>fmt\<close>, \<open>sender\<close>, \<open>type\<close>,
  \<open>receiver\<close>, \<open>register\<close> and \<open>value\<close> of \<open>self\<close>, with the prefix \<open>msg_\<close>.
\<close>

record ElsterMessage = can_message +
  msg_fmt :: "string option"
  msg_sender :: "int option"
  msg_type :: int
  msg_receiver :: int
  msg_register :: int
  msg_value :: "int option"

text \<open>
  \<open>ElsterMessage.__init__(self, sender=None, receiver=None, register=None, msg=None,
  fmt=None)\<close>. A \<open>can.Message\<close> is always true (its \<open>__bool__\<close> returns True), so
  \<open>if msg\<close> fails for None only. In the other branch \<open>encode_elster_data\<close> shifts
  \<open>receiver\<close> and \<open>register\<close>, which raises TypeError when one of them is None.
\<close>

definition ElsterMessage_init ::
    "int option \<Rightarrow> int option \<Rightarrow> int option \<Rightarrow> can_message option \<Rightarrow> string option
     \<Rightarrow> error + ElsterMessage" where
  "ElsterMessage_init sender receiver register msg fmt =
     (case msg of
        Some m \<Rightarrow>
          bind_r (decode_elster_data (data m) 7) (\<lambda>(t, rcv, reg, v).
            Inr \<lparr>arbitration_id = arbitration_id m, data = data m,
                 msg_fmt = fmt, msg_sender = arbitration_id m, msg_type = t,
                 msg_receiver = rcv, msg_register = reg, msg_value = v\<rparr>)
      | None \<Rightarrow>
          (case receiver of
             None \<Rightarrow> Inl TypeError
           | Some rcv \<Rightarrow>
               (case register of
                  None \<Rightarrow> Inl TypeError
                | Some reg \<Rightarrow>
                    Inr \<lparr>arbitration_id = sender, data = encode_elster_data rcv reg None,
                         msg_fmt = fmt, msg_sender = sender, msg_type = TYPE_REQUEST,
                         msg_receiver = rcv, msg_register = reg, msg_value = None\<rparr>)))"

text \<open>The values \<open>formatted_value\<close> can return: \<open>self.value\<close> (an integer or None) or a string.\<close>

datatype pyval = PyNone | PyInt int | PyStr string

text \<open>
  The property \<open>formatted_value\<close>. \<open>not self.fmt\<close> holds for None and for the empty
  string. The dictionary display evaluates its three values, in order, before it is
  indexed: the first division raises TypeError when \<open>self.value\<close> is None and
  OverflowError when it is too large for a double, and indexing with a key that is not
  in the dictionary raises KeyError.
\<close>

definition formatted_value :: "(rat \<Rightarrow> rat \<Rightarrow> rat) \<Rightarrow> ElsterMessage \<Rightarrow> error + pyval" where
  "formatted_value fd self =
     (if msg_fmt self = None \<or> msg_fmt self = Some []
      then Inr (case msg_value self of None \<Rightarrow> PyNone | Some v \<Rightarrow> PyInt v)
      else (case msg_value self of
              None \<Rightarrow> Inl TypeError
            | Some v \<Rightarrow>
                if float_overflow v then Inl OverflowError
                else (case map_of
                        [(''dec_val'', format_f 1 (fd (of_int v) 10)),
                         (''mil_val'', format_f 3 (fd (of_int v) 1000)),
                         (''little_endian'',
                            int_str (push_bit 8 (v AND 0xff) OR drop_bit 8 v))]
                        (case msg_fmt self of Some f \<Rightarrow> f | None \<Rightarrow> [])
                 of None \<Rightarrow> Inl KeyError
                  | Some s \<Rightarrow> Inr (PyStr s))))"

section \<open>Register directory\<close>

text \<open>
  The configuration is the YAML document, loaded with \<open>BaseLoader\<close> (every scalar is a
  string): \<open>config["can"]["interface"]\<close>, \<open>config["can"]["sender"]\<close> and the list
  \<open>config["data"]\<close>, whose entries have a \<open>name\<close>, an \<open>index\<close> and possibly a
  \<open>format\<close>.
\<close>

record entry =
  entry_name :: string
  entry_index :: string
  entry_format :: "string option"

record yaml_config =
  can_interface :: string
  can_sender :: string
  data_entries :: "entry list"

text \<open>
  \<open>class ElsterBus\<close>: the attributes \<open>channel\<close>, \<open>sender\<close>, \<open>config\<close> and
  \<open>simulate\<close> of \<open>self\<close>, with the prefix \<open>bus_\<close>. The bus handle \<open>self.bus\<close> is the
  transport of the next section.
\<close>

record ElsterBus =
  bus_channel :: string
  bus_sender :: int
  bus_config :: "string \<rightharpoonup> entry"
  bus_simulate :: bool

text \<open>
  \<open>ElsterBus.__init__\<close>. The dictionary comprehension
  \<open>{x["name"]: x for x in config["data"]}\<close> stores the entries in list order, a later
  one replacing an earlier one of the same name.
\<close>

definition ElsterBus_init :: "yaml_config \<Rightarrow> bool \<Rightarrow> error + ElsterBus" where
  "ElsterBus_init config simulate =
     bind_r (py_int16 (can_sender config)) (\<lambda>s.
       Inr \<lparr>bus_channel = can_interface config, bus_sender = s,
            bus_config = fold (\<lambda>x m. m(entry_name x \<mapsto> x)) (data_entries config) Map.empty,
            bus_simulate = simulate\<rparr>)"

text \<open>
  \<open>ElsterBus.config_lookup\<close>. Unpacking \<open>rec, reg = ...\<close> raises ValueError unless
  the split gives exactly two parts.
\<close>

definition config_lookup :: "ElsterBus \<Rightarrow> string \<Rightarrow> error + (int \<times> int \<times> string option)" where
  "config_lookup self name =
     (case bus_config self name of
        None \<Rightarrow> Inl ElsterInvalidName
      | Some c \<Rightarrow>
          (case split_dot (entry_index c) of
             [rec, reg] \<Rightarrow>
               bind_r (py_int16 rec) (\<lambda>a.
               bind_r (py_int16 reg) (\<lambda>b.
                 Inr (a, b, entry_format c)))
           | _ \<Rightarrow> Inl ValueError))"

text \<open>
  Example data. The configuration of the repository's test (\<open>tests/test_read.py\<close>)
  with a given list of entries, and the session that \<open>ElsterBus.__init__\<close> makes of
  it; a list of three entries, the last being the entry of that test and the first
  having the name of the last; and the message that \<open>ElsterMessage\<close> makes of a
  response frame from 0x180 to 0x123 for register 0xdeaf.
\<close>

definition example_config :: "entry list \<Rightarrow> yaml_config" where
  "example_config es = \<lparr>can_interface = ''dummy'', can_sender = ''123'', data_entries = es\<rparr>"

definition example_bus :: "entry list \<Rightarrow> ElsterBus" where
  "example_bus es =
     \<lparr>bus_channel = ''dummy'', bus_sender = 0x123,
      bus_config = fold (\<lambda>x m. m(entry_name x \<mapsto> x)) es Map.empty,
      bus_simulate = False\<rparr>"

definition example_entries :: "entry list" where
  "example_entries =
     [\<lparr>entry_name = ''FOO'', entry_index = ''480.000c'', entry_format = Some ''mil_val''\<rparr>,
      \<lparr>entry_name = ''BAR'', entry_index = ''301.0001'', entry_format = Some ''dec_val''\<rparr>,
      \<lparr>entry_name = ''FOO'', entry_index = ''180.deaf'', entry_format = None\<rparr>]"

definition example_response :: "int \<Rightarrow> string option \<Rightarrow> ElsterMessage" where
  "example_response v f =
     \<lparr>arbitration_id = Some 0x180, data = encode_elster_data 0x123 0xdeaf (Some v),
      msg_fmt = f, msg_sender = Some 0x180, msg_type = TYPE_RESPONSE,
      msg_receiver = 0x123, msg_register = 0xdeaf, msg_value = Some v\<rparr>"

section \<open>Transport and clock\<close>

text \<open>
  Modelled from the spec: the transport (python-can's \<open>Bus\<close>) and the clock
  (\<open>time.time\<close>) are external collaborators and not part of the repository. Section 6
  of the specification gives the contract: \<open>send(addressed_frame)\<close> and
  \<open>receive(timeout) \<rightarrow> addressed_frame | none-on-timeout\<close>. The world holds the
  clock, the frames that are going to arrive on the bus with their arrival times (in
  order of arrival), the frames sent so far, the timeouts that \<open>recv\<close> was called
  with, and what \<open>print\<close> has written. Time passes only while \<open>recv\<close> blocks.
\<close>

record world =
  clock :: int
  pending :: "(int \<times> can_message) list"
  sent :: "can_message list"
  recv_timeouts :: "int list"
  printed :: "error list"

definition bus_send :: "world \<Rightarrow> can_message \<Rightarrow> world" where
  "bus_send w m = w\<lparr>sent := sent w @ [m]\<rparr>"

text \<open>
  \<open>bus.recv(timeout=t)\<close> returns the next frame if it arrives within \<open>t\<close> from now,
  at the time it arrives (at once when it has arrived already); otherwise it returns
  None when \<open>t\<close> has passed.
\<close>

definition bus_recv :: "world \<Rightarrow> int \<Rightarrow> can_message option \<times> world" where
  "bus_recv w t =
     (let w1 = w\<lparr>recv_timeouts := recv_timeouts w @ [t]\<rparr>
      in case pending w of
           [] \<Rightarrow> (None, w1\<lparr>clock := clock w + max 0 t\<rparr>)
         | (a, m) # rest \<Rightarrow>
             if a \<le> clock w + max 0 t
             then (Some m, w1\<lparr>clock := max (clock w) a, pending := rest\<rparr>)
             else (None, w1\<lparr>clock := clock w + max 0 t\<rparr>))"

section \<open>Session\<close>

text \<open>
  The receive loop of \<open>ElsterBus.read\<close>:
  \<^verbatim>\<open>
      while time.time() < (start_time + timeout):
          m = self.bus.recv(timeout=timeout)
          try:
              msg = ElsterMessage(msg=m, fmt=fmt)
              if msg.type == TYPE_RESPONSE and msg.sender == receiver and msg.receiver == self.sender:
                  return msg
          except ElsterError as e:
              print(e)
      raise ElsterReadTimedOut("Timed out waiting for a response")
  \<close>
  An exception that is not an \<open>ElsterError\<close> leaves the loop and \<open>read\<close>.
\<close>

function read_loop ::
    "ElsterBus \<Rightarrow> int option \<Rightarrow> string option \<Rightarrow> int \<Rightarrow> int \<Rightarrow> world
     \<Rightarrow> (error + ElsterMessage) \<times> world" where
  "read_loop self receiver fmt timeout start_time w =
     (if clock w < start_time + timeout
      then (case bus_recv w timeout of
              (m, w1) \<Rightarrow>
                (case ElsterMessage_init None None None m fmt of
                   Inr msg \<Rightarrow>
                     if msg_type msg = TYPE_RESPONSE \<and> msg_sender msg = receiver
                        \<and> msg_receiver msg = bus_sender self
                     then (Inr msg, w1)
                     else read_loop self receiver fmt timeout start_time w1
                 | Inl e \<Rightarrow>
                     if is_ElsterError e
                     then read_loop self receiver fmt timeout start_time
                            (w1\<lparr>printed := printed w1 @ [e]\<rparr>)
                     else (Inl e, w1)))
      else (Inl ElsterReadTimedOut, w))"
  by pat_completeness auto

text \<open>
  Every iteration that goes round again has taken a frame off the bus: when \<open>recv\<close>
  returns None, the constructor raises TypeError, which ends the loop.
\<close>

termination read_loop
  by (relation "measure (\<lambda>(self, receiver, fmt, timeout, start_time, w). length (pending w))")
     (auto simp: bus_recv_def ElsterMessage_init_def Let_def
           split: list.splits if_splits prod.splits option.splits)

declare read_loop.simps [simp del]

text \<open>
  \<open>ElsterBus.read(self, name=None, receiver=None, register=None, fmt=None,
  timeout=30)\<close>. \<open>if name\<close> fails for None and for the empty string.
\<close>

definition read ::
    "ElsterBus \<Rightarrow> string option \<Rightarrow> int option \<Rightarrow> int option \<Rightarrow> string option \<Rightarrow> int
     \<Rightarrow> world \<Rightarrow> (error + ElsterMessage) \<times> world" where
  "read self name receiver register fmt timeout w =
     (case (case name of
              None \<Rightarrow> Inr (receiver, register, fmt)
            | Some n \<Rightarrow>
                if n = [] then Inr (receiver, register, fmt)
                else bind_r (config_lookup self n) (\<lambda>(a, b, f). Inr (Some a, Some b, f)))
      of Inl e \<Rightarrow> (Inl e, w)
       | Inr (receiver, register, fmt) \<Rightarrow>
           (case ElsterMessage_init (Some (bus_sender self)) receiver register None fmt of
              Inl e \<Rightarrow> (Inl e, w)
            | Inr msg \<Rightarrow>
                if bus_simulate self then (Inr (msg\<lparr>msg_value := Some 12345\<rparr>), w)
                else (let w1 = bus_send w (can_message.truncate msg);
                          start_time = clock w1
                      in read_loop self receiver fmt timeout start_time w1)))"

text \<open>
  The acceptance condition in the words of the specification (section 4.4, step c): the
  frame decodes as a seven-byte frame, its message kind is Response, its transport-level
  source address is the requested destination address, and its decoded receiver address
  is the source address of the session.
\<close>

definition matching_response :: "ElsterBus \<Rightarrow> int option \<Rightarrow> can_message \<Rightarrow> bool" where
  "matching_response self receiver m =
     (case decode_elster_data (data m) 7 of
        Inl e \<Rightarrow> False
      | Inr (t, rcv, reg, v) \<Rightarrow>
          t = TYPE_RESPONSE \<and> arbitration_id m = receiver \<and> rcv = bus_sender self)"

text \<open>
  The state of the world after \<open>recv\<close>, called with the timeout \<open>t\<close>, has returned the
  frame that arrives at the time \<open>a\<close>, and after it has returned None.
\<close>

definition received :: "world \<Rightarrow> int \<Rightarrow> int \<Rightarrow> world" where
  "received w t a =
     w\<lparr>recv_timeouts := recv_timeouts w @ [t], clock := max (clock w) a,
       pending := tl (pending w)\<rparr>"

definition timed_out :: "world \<Rightarrow> int \<Rightarrow> world" where
  "timed_out w t = w\<lparr>recv_timeouts := recv_timeouts w @ [t], clock := clock w + max 0 t\<rparr>"

text \<open>
  Example traffic: a world at time 0 with given frames to come; the response of the
  repository's test, from 0x180 to 0x123 with the value 0xdead; and the response of
  another device, 0x301, to the same session.
\<close>

definition example_world :: "(int \<times> can_message) list \<Rightarrow> world" where
  "example_world fs = \<lparr>clock = 0, pending = fs, sent = [], recv_timeouts = [], printed = []\<rparr>"

definition answer_frame :: can_message where
  "answer_frame = \<lparr>arbitration_id = Some 0x180, data = [0x22, 0x23, 0xfa, 0xde, 0xaf, 0xde, 0xad]\<rparr>"

definition stray_frame :: can_message where
  "stray_frame = \<lparr>arbitration_id = Some 0x301, data = [0x22, 0x23, 0xfa, 0xde, 0xaf, 0x00, 0x01]\<rparr>"

section \<open>Properties of the frame codec\<close>

lemma mask_240: "(0xf0::int) = push_bit 4 (mask 4)"
  by (simp add: mask_eq_exp_minus_1)

lemma mask_127: "(0x7f::int) = mask 7"
  by (simp add: mask_eq_exp_minus_1)

lemma mask_15: "(0x0f::int) = mask 4"
  by (simp add: mask_eq_exp_minus_1)

lemma mask_255: "(0xff::int) = mask 8"
  by (simp add: mask_eq_exp_minus_1)

lemma bit_below:
  assumes "0 \<le> (k::int)" and "k < 2 ^ w" and "bit k n"
  shows "n < w"
proof -
  have "take_bit w k = k"
    using assms by (simp add: take_bit_int_eq_self)
  then have "bit k n = (n < w \<and> bit k n)"
    using bit_take_bit_iff [of w k n] by simp
  with assms show ?thesis by simp
qed

lemma receiver_roundtrip:
  assumes "0 \<le> d" and "d \<le> 2047"
  shows "push_bit 3 (((drop_bit 3 d AND 0xf0) OR (t AND 0x0f)) AND 0xf0) OR ((d AND 0x7f) AND 0x7f) = (d::int)"
proof -
  have lo: "n < 11" if "bit d n" for n
    using bit_below [of d 11 n] assms that by simp
  show ?thesis
    unfolding mask_240 mask_127 mask_15
    by (rule bit_eqI) (auto simp add: bit_simps dest: lo)
qed

lemma type_roundtrip:
  assumes "0 \<le> t" and "t \<le> 15"
  shows "((drop_bit 3 d AND 0xf0) OR (t AND 0x0f)) AND 0x0f = (t::int)"
proof -
  have lo: "n < 4" if "bit t n" for n
    using bit_below [of t 4 n] assms that by simp
  show ?thesis
    unfolding mask_240 mask_15
    by (rule bit_eqI) (auto simp add: bit_simps dest: lo)
qed

lemma halfword_roundtrip:
  assumes "0 \<le> r" and "r \<le> 65535"
  shows "push_bit 8 ((drop_bit 8 r AND 0xff) AND 0xff) OR ((r AND 0xff) AND 0xff) = (r::int)"
proof -
  have lo: "n < 16" if "bit r n" for n
    using bit_below [of r 16 n] assms that by simp
  show ?thesis
    unfolding mask_255
    by (rule bit_eqI) (auto simp add: bit_simps dest: lo)
qed

lemma encode_request_bytes:
  "encode_elster_data d r None =
     [(drop_bit 3 d AND 0xf0) OR (1 AND 0x0f), d AND 0x7f, 0xfa,
      drop_bit 8 r AND 0xff, r AND 0xff]"
  by (simp add: encode_elster_data_def TYPE_REQUEST_def numeral_eq_Suc)

lemma encode_response_bytes:
  "encode_elster_data d r (Some v) =
     [(drop_bit 3 d AND 0xf0) OR (2 AND 0x0f), d AND 0x7f, 0xfa,
      drop_bit 8 r AND 0xff, r AND 0xff, drop_bit 8 v AND 0xff, v AND 0xff]"
  by (simp add: encode_elster_data_def TYPE_RESPONSE_def numeral_eq_Suc)

lemma decode_five:
  "decode_elster_data [b0, b1, b2, b3, b4] 5 =
     (if b2 \<noteq> 0xfa then Inl ElsterDataByte2Error
      else Inr (b0 AND 0x0f, push_bit 3 (b0 AND 0xf0) OR (b1 AND 0x7f),
                push_bit 8 (b3 AND 0xff) OR (b4 AND 0xff), None))"
  by (simp add: decode_elster_data_def bind_r_def item_def)

lemma decode_seven:
  "decode_elster_data [b0, b1, b2, b3, b4, b5, b6] 7 =
     (if b2 \<noteq> 0xfa then Inl ElsterDataByte2Error
      else Inr (b0 AND 0x0f, push_bit 3 (b0 AND 0xf0) OR (b1 AND 0x7f),
                push_bit 8 (b3 AND 0xff) OR (b4 AND 0xff),
                Some (push_bit 8 (b5 AND 0xff) OR (b6 AND 0xff))))"
  by (simp add: decode_elster_data_def bind_r_def item_def)

text \<open>
  Claim C1. Decoding is the left inverse of encoding: for a destination address of 11
  bits and a register address of 16 bits, decoding the five-byte request with expected
  size 5 gives the kind Request, the two addresses and no value; and for every value
  of 16 bits, decoding the seven-byte response gives the kind Response, the same
  addresses and that value.
\<close>

theorem C1_decode_encode_roundtrip:
  assumes "0 \<le> d" and "d \<le> 2047" and "0 \<le> r" and "r \<le> 65535"
  shows "decode_elster_data (encode_elster_data d r None) 5 = Inr (TYPE_REQUEST, d, r, None)
       \<and> (\<forall>v. 0 \<le> v \<and> v \<le> 65535 \<longrightarrow>
            decode_elster_data (encode_elster_data d r (Some v)) 7
              = Inr (TYPE_RESPONSE, d, r, Some v))"
proof (intro conjI allI impI)
  have rcv: "push_bit 3 (((drop_bit 3 d AND 0xf0) OR (t AND 0x0f)) AND 0xf0) OR ((d AND 0x7f) AND 0x7f) = d" for t
    using assms(1,2) by (rule receiver_roundtrip)
  have reg: "push_bit 8 ((drop_bit 8 r AND 0xff) AND 0xff) OR ((r AND 0xff) AND 0xff) = r"
    using assms(3,4) by (rule halfword_roundtrip)
  have t1: "((drop_bit 3 d AND 0xf0) OR (1 AND 0x0f)) AND 0x0f = 1"
    by (rule type_roundtrip) simp_all
  have t2: "((drop_bit 3 d AND 0xf0) OR (2 AND 0x0f)) AND 0x0f = 2"
    by (rule type_roundtrip) simp_all
  show "decode_elster_data (encode_elster_data d r None) 5 = Inr (TYPE_REQUEST, d, r, None)"
    unfolding encode_request_bytes decode_five
    using rcv [of 1] reg t1 by (simp add: TYPE_REQUEST_def)
  fix v :: int
  assume v: "0 \<le> v \<and> v \<le> 65535"
  then have val: "push_bit 8 ((drop_bit 8 v AND 0xff) AND 0xff) OR ((v AND 0xff) AND 0xff) = v"
    by (intro halfword_roundtrip) simp_all
  show "decode_elster_data (encode_elster_data d r (Some v)) 7 = Inr (TYPE_RESPONSE, d, r, Some v)"
    unfolding encode_response_bytes decode_seven
    using rcv [of 2] reg t2 val by (simp add: TYPE_RESPONSE_def)
qed

text \<open>The test vectors of the repository: address 0x123, register 0xdeaf, value 0xbabe.\<close>

theorem C1_decode_encode_roundtrip_witness:
  "decode_elster_data (encode_elster_data 0x123 0xdeaf None) 5 = Inr (TYPE_REQUEST, 0x123, 0xdeaf, None)
   \<and> decode_elster_data (encode_elster_data 0x123 0xdeaf (Some 0xbabe)) 7
       = Inr (TYPE_RESPONSE, 0x123, 0xdeaf, Some 0xbabe)"
  using C1_decode_encode_roundtrip [of "0x123" "0xdeaf"] by simp

lemma and_byte: "0 \<le> (m::int) \<Longrightarrow> m \<le> 255 \<Longrightarrow> 0 \<le> x AND m \<and> x AND m \<le> 255"
  using AND_upper2' [of m 255 x] by simp

lemma or_byte:
  "0 \<le> (a::int) \<Longrightarrow> a \<le> 255 \<Longrightarrow> 0 \<le> b \<Longrightarrow> b \<le> 255 \<Longrightarrow> 0 \<le> a OR b \<and> a OR b \<le> 255"
  using OR_upper [of a 8 b] by simp

lemma first_byte: "0 \<le> (x AND 0xf0) OR (t AND 0x0f) \<and> (x AND 0xf0) OR (t AND 0x0f) \<le> (255::int)"
  using or_byte [of "x AND 0xf0" "t AND 0x0f"] and_byte [of "0xf0" x] and_byte [of "0x0f" t]
  by simp

text \<open>
  Claim C10. For all integers \<open>receiver\<close>, \<open>register\<close> and \<open>value\<close>, also negative
  ones and ones beyond 11 and 16 bits, the encoded list has length 5 when the value is
  absent and 7 when it is present, each of its elements lies in the range 0 to 255, and
  the element at index 2 is 0xFA.
\<close>

theorem C10_encode_shape:
  "length (encode_elster_data receiver register val) = (if val = None then 5 else 7)
   \<and> (\<forall>b \<in> set (encode_elster_data receiver register val). 0 \<le> b \<and> b \<le> 255)
   \<and> encode_elster_data receiver register val ! 2 = 0xfa"
proof (cases val)
  case None
  show ?thesis
    unfolding None encode_request_bytes
    using first_byte [of "drop_bit 3 receiver" 1] and_byte [of "0x7f" receiver]
      and_byte [of "0xff" "drop_bit 8 register"] and_byte [of "0xff" register]
    by simp
next
  case (Some v)
  show ?thesis
    unfolding Some encode_response_bytes
    using first_byte [of "drop_bit 3 receiver" 2] and_byte [of "0x7f" receiver]
      and_byte [of "0xff" "drop_bit 8 register"] and_byte [of "0xff" register]
      and_byte [of "0xff" "drop_bit 8 v"] and_byte [of "0xff" v]
    by simp
qed

text \<open>An instance with three negative arguments.\<close>

theorem C10_encode_shape_witness:
  "length (encode_elster_data (- 5) (- 70000) (Some (- 1))) = 7
   \<and> list_all (\<lambda>b. 0 \<le> b \<and> b \<le> 255) (encode_elster_data (- 5) (- 70000) (Some (- 1)))
   \<and> encode_elster_data (- 5) (- 70000) (Some (- 1)) ! 2 = 0xfa"
  using C10_encode_shape [of "- 5" "- 70000" "Some (- 1)"] by (simp add: list_all_iff)

lemma decode_size_error_iff:
  "decode_elster_data frame sz = Inl ElsterDataSizeError \<longleftrightarrow> int (length frame) \<noteq> sz"
  by (auto simp add: decode_elster_data_def bind_r_def item_def Let_def)

lemma decode_byte2_error_iff:
  "decode_elster_data frame sz = Inl ElsterDataByte2Error
     \<longleftrightarrow> int (length frame) = sz \<and> 3 \<le> length frame \<and> frame ! 2 \<noteq> 0xfa"
  by (auto simp add: decode_elster_data_def bind_r_def item_def Let_def)

lemma decode_success:
  assumes "int (length frame) = sz" and "5 \<le> length frame" and "frame ! 2 = 0xfa"
  shows "decode_elster_data frame sz =
           Inr (frame ! 0 AND 0x0f,
                push_bit 3 (frame ! 0 AND 0xf0) OR (frame ! 1 AND 0x7f),
                push_bit 8 (frame ! 3 AND 0xff) OR (frame ! 4 AND 0xff),
                if length frame = 7
                then Some (push_bit 8 (frame ! 5 AND 0xff) OR (frame ! 6 AND 0xff))
                else None)"
  using assms by (auto simp add: decode_elster_data_def bind_r_def item_def Let_def)

text \<open>
  Claim C6. For every expected size of at least five bytes (the frames of the protocol
  have five and seven), and for every list of integers: decoding fails with the size
  error exactly when the length differs from the expected size; it fails with the
  sentinel error exactly when the length matches and byte 2 is not 0xFA; and otherwise
  it succeeds, with the low nibble of byte 0 as message kind, whatever that nibble is.
\<close>

theorem C6_decode_outcomes:
  assumes "5 \<le> sz"
  shows "(decode_elster_data frame sz = Inl ElsterDataSizeError \<longleftrightarrow> int (length frame) \<noteq> sz)
       \<and> (decode_elster_data frame sz = Inl ElsterDataByte2Error
            \<longleftrightarrow> int (length frame) = sz \<and> frame ! 2 \<noteq> 0xfa)
       \<and> (int (length frame) = sz \<and> frame ! 2 = 0xfa \<longrightarrow>
            decode_elster_data frame sz =
              Inr (frame ! 0 AND 0x0f,
                   push_bit 3 (frame ! 0 AND 0xf0) OR (frame ! 1 AND 0x7f),
                   push_bit 8 (frame ! 3 AND 0xff) OR (frame ! 4 AND 0xff),
                   if length frame = 7
                   then Some (push_bit 8 (frame ! 5 AND 0xff) OR (frame ! 6 AND 0xff))
                   else None))"
proof (intro conjI impI)
  show "decode_elster_data frame sz = Inl ElsterDataSizeError \<longleftrightarrow> int (length frame) \<noteq> sz"
    by (rule decode_size_error_iff)
  have long: "5 \<le> length frame" if "int (length frame) = sz"
    using that assms by simp
  show "decode_elster_data frame sz = Inl ElsterDataByte2Error
          \<longleftrightarrow> int (length frame) = sz \<and> frame ! 2 \<noteq> 0xfa"
    using decode_byte2_error_iff [of frame sz] long by auto
  show "decode_elster_data frame sz =
          Inr (frame ! 0 AND 0x0f,
               push_bit 3 (frame ! 0 AND 0xf0) OR (frame ! 1 AND 0x7f),
               push_bit 8 (frame ! 3 AND 0xff) OR (frame ! 4 AND 0xff),
               if length frame = 7
               then Some (push_bit 8 (frame ! 5 AND 0xff) OR (frame ! 6 AND 0xff))
               else None)"
    if "int (length frame) = sz \<and> frame ! 2 = 0xfa"
    using that long by (intro decode_success) simp_all
qed

text \<open>
  Frames of seven and of five bytes whose low nibble of byte 0 is 0xF, which is no
  message kind, decode.
\<close>

theorem C6_decode_outcomes_witness:
  "decode_elster_data [0x2f, 0x23, 0xfa, 0xde, 0xaf, 0xba, 0xbe] 7 = Inr (0x0f, 0x123, 0xdeaf, Some 0xbabe)
   \<and> decode_elster_data [0x2f, 0x23, 0xfa, 0xde, 0xaf, 0xba, 0xbe] 7 \<noteq> Inl ElsterDataSizeError
   \<and> decode_elster_data [0x2f, 0x23, 0xfa, 0xde, 0xaf, 0xba, 0xbe] 7 \<noteq> Inl ElsterDataByte2Error
   \<and> decode_elster_data [0x2f, 0x23, 0xfa, 0xde, 0xaf] 5 = Inr (0x0f, 0x123, 0xdeaf, None)"
proof -
  have seven: "(5::int) \<le> 7" and five: "(5::int) \<le> 5" by simp_all
  show ?thesis
    using C6_decode_outcomes [OF seven, of "[0x2f, 0x23, 0xfa, 0xde, 0xaf, 0xba, 0xbe]"]
      C6_decode_outcomes [OF five, of "[0x2f, 0x23, 0xfa, 0xde, 0xaf]"]
    by simp
qed

section \<open>Properties of the register directory\<close>

lemma directory_absent:
  "name \<notin> entry_name ` set xs \<Longrightarrow> fold (\<lambda>x m. m(entry_name x \<mapsto> x)) xs m0 name = m0 name"
  by (induction xs arbitrary: m0) auto

lemma directory_last_wins:
  assumes "entry_name x \<notin> entry_name ` set post"
  shows "fold (\<lambda>x m. m(entry_name x \<mapsto> x)) (pre @ x # post) m0 (entry_name x) = Some x"
  using assms by (simp add: directory_absent)

lemma split_dot_no_dot: "CHR ''.'' \<notin> set b \<Longrightarrow> split_dot b = [b]"
  by (induction b) auto

lemma split_dot_one_dot:
  "CHR ''.'' \<notin> set a \<Longrightarrow> CHR ''.'' \<notin> set b \<Longrightarrow> split_dot (a @ CHR ''.'' # b) = [a, b]"
  by (induction a) (auto simp add: split_dot_no_dot)

lemma hex_digit_not_space: "hex_digit c \<noteq> None \<Longrightarrow> \<not> is_space c"
  by (auto simp add: hex_digit_def is_space_def Let_def split: if_splits)

lemma hex_digit_plain:
  assumes "hex_digit c \<noteq> None"
  shows "c \<noteq> CHR ''.''" and "c \<noteq> CHR ''_''" and "c \<noteq> CHR ''+''" and "c \<noteq> CHR ''-''"
    and "c \<noteq> CHR ''x''" and "c \<noteq> CHR ''X''"
  using assms by (auto simp add: hex_digit_def)

lemma hex_digits_plain:
  assumes "\<forall>c \<in> set cs. hex_digit c \<noteq> None" and "cs \<noteq> [] \<or> prev"
  shows "hex_digits acc prev cs = Inr (foldl (\<lambda>a c. 16 * a + hex_digit_val c) acc cs)"
  using assms
proof (induction cs arbitrary: acc prev)
  case Nil
  then show ?case by simp
next
  case (Cons c cs)
  then obtain d where d: "hex_digit c = Some d" by auto
  with Cons show ?case
    using hex_digit_plain(2) [of c] by (simp add: hex_digit_val_def)
qed

lemma py_int16_plain:
  assumes "\<forall>c \<in> set s. hex_digit c \<noteq> None" and "s \<noteq> []"
  shows "py_int16 s = Inr (hex_value s)"
proof -
  obtain c cs where s: "s = c # cs" using assms(2) by (cases s) auto
  have c: "hex_digit c \<noteq> None" using assms(1) s by simp
  have s1: "dropWhile is_space s = s"
    using s hex_digit_not_space [OF c] by simp
  have "hex_digit (last s) \<noteq> None" using assms by simp
  then have "\<not> is_space (last s)" by (rule hex_digit_not_space)
  then have "dropWhile is_space (rev s) = rev s"
    using assms(2) by (cases "rev s") (auto simp add: last_rev)
  then have s4: "rev (dropWhile is_space (rev s)) = s" by simp
  have s3: "(case s of
               c0 # c1 # cs \<Rightarrow>
                 if c0 = CHR ''0'' \<and> (c1 = CHR ''x'' \<or> c1 = CHR ''X'')
                 then (case cs of u # cs' \<Rightarrow> if u = CHR ''_'' then cs' else cs | [] \<Rightarrow> cs)
                 else s
             | _ \<Rightarrow> s) = s"
  proof (cases cs)
    case Nil
    with s show ?thesis by simp
  next
    case (Cons c1 cs')
    have "hex_digit c1 \<noteq> None" using assms(1) s Cons by simp
    then have "c1 \<noteq> CHR ''x''" and "c1 \<noteq> CHR ''X''" by (rule hex_digit_plain)+
    with s Cons show ?thesis by simp
  qed
  have sign: "c \<noteq> CHR ''+''" "c \<noteq> CHR ''-''"
    using hex_digit_plain [OF c] by simp_all
  have neg: "(case s of c # cs \<Rightarrow> c = CHR ''-'' | [] \<Rightarrow> False) = False"
    using s sign by simp
  have s2: "(case s of c # cs \<Rightarrow> if c = CHR ''+'' \<or> c = CHR ''-'' then cs else s | [] \<Rightarrow> s) = s"
    using s sign by simp
  have digits: "hex_digits 0 False s = Inr (hex_value s)"
    using hex_digits_plain [of s False 0] assms by (simp add: hex_value_def)
  show ?thesis
    unfolding py_int16_def Let_def s1 neg s2 s3 s4 digits
    by (simp add: bind_r_def)
qed

lemma config_lookup_entry:
  assumes "bus_config self name = Some c"
    and "entry_index c = rec @ ''.'' @ reg"
    and "rec \<noteq> []" and "reg \<noteq> []"
    and "\<forall>ch \<in> set (rec @ reg). hex_digit ch \<noteq> None"
  shows "config_lookup self name = Inr (hex_value rec, hex_value reg, entry_format c)"
proof -
  have nodot: "CHR ''.'' \<notin> set rec" "CHR ''.'' \<notin> set reg"
    using assms(5) hex_digit_plain(1) by auto
  have split: "split_dot (entry_index c) = [rec, reg]"
    using split_dot_one_dot [OF nodot] assms(2) by simp
  have rec: "py_int16 rec = Inr (hex_value rec)"
    using assms(3,5) by (intro py_int16_plain) simp_all
  have reg: "py_int16 reg = Inr (hex_value reg)"
    using assms(4,5) by (intro py_int16_plain) simp_all
  show ?thesis
    by (simp add: config_lookup_def assms(1) split rec reg bind_r_def)
qed

lemma ElsterBus_init_config:
  "ElsterBus_init config simulate = Inr self \<Longrightarrow>
     bus_config self = fold (\<lambda>x m. m(entry_name x \<mapsto> x)) (data_entries config) Map.empty"
  by (auto simp add: ElsterBus_init_def bind_r_def split: sum.splits)

text \<open>
  Claim C9. In the directory that \<open>ElsterBus.__init__\<close> builds from the list of entries,
  looking up a name that no entry has fails with \<open>ElsterInvalidName\<close>. Looking up a
  name that an entry has takes the last entry of that name; when its index string is
  two non-empty strings of hexadecimal digits with a dot between them, the result is
  the two hexadecimal integers and the format of that entry.
\<close>

theorem C9_directory_lookup:
  assumes "ElsterBus_init config simulate = Inr self"
  shows "(name \<notin> entry_name ` set (data_entries config) \<longrightarrow>
            config_lookup self name = Inl ElsterInvalidName)
       \<and> (\<forall>pre x post rec reg.
            data_entries config = pre @ x # post \<and> entry_name x = name
            \<and> name \<notin> entry_name ` set post
            \<and> entry_index x = rec @ ''.'' @ reg \<and> rec \<noteq> [] \<and> reg \<noteq> []
            \<and> (\<forall>ch \<in> set (rec @ reg). hex_digit ch \<noteq> None)
            \<longrightarrow> config_lookup self name = Inr (hex_value rec, hex_value reg, entry_format x))"
proof (intro conjI allI impI)
  note dir = ElsterBus_init_config [OF assms]
  show "config_lookup self name = Inl ElsterInvalidName"
    if "name \<notin> entry_name ` set (data_entries config)"
    using that by (simp add: config_lookup_def dir directory_absent)
  fix pre x post rec reg
  assume h: "data_entries config = pre @ x # post \<and> entry_name x = name
            \<and> name \<notin> entry_name ` set post
            \<and> entry_index x = rec @ ''.'' @ reg \<and> rec \<noteq> [] \<and> reg \<noteq> []
            \<and> (\<forall>ch \<in> set (rec @ reg). hex_digit ch \<noteq> None)"
  then have "bus_config self name = Some x"
    using directory_last_wins [of x post pre Map.empty] by (simp add: dir)
  then show "config_lookup self name = Inr (hex_value rec, hex_value reg, entry_format x)"
    using h by (intro config_lookup_entry) simp_all
qed

text \<open>
  The example directory repeats the name \<open>FOO\<close>: its lookup gives the last entry of
  that name, and \<open>BAZ\<close> is no name of the directory.
\<close>

lemma example_bus_init: "ElsterBus_init (example_config es) False = Inr (example_bus es)"
  by (simp add: ElsterBus_init_def example_config_def example_bus_def py_int16_def
      is_space_def hex_digit_def bind_r_def)

theorem C9_directory_lookup_witness:
  "ElsterBus_init (example_config example_entries) False = Inr (example_bus example_entries)
   \<and> config_lookup (example_bus example_entries) ''BAZ'' = Inl ElsterInvalidName
   \<and> config_lookup (example_bus example_entries) ''FOO'' = Inr (0x180, 0xdeaf, None)"
proof -
  note init = example_bus_init [of example_entries]
  have hex: "\<forall>ch \<in> set (''180'' @ ''deaf''). hex_digit ch \<noteq> None"
    by (simp add: hex_digit_def)
  have entries: "data_entries (example_config example_entries) =
      [\<lparr>entry_name = ''FOO'', entry_index = ''480.000c'', entry_format = Some ''mil_val''\<rparr>,
       \<lparr>entry_name = ''BAR'', entry_index = ''301.0001'', entry_format = Some ''dec_val''\<rparr>]
      @ \<lparr>entry_name = ''FOO'', entry_index = ''180.deaf'', entry_format = None\<rparr> # []"
    by (simp add: example_config_def example_entries_def)
  have absent: "config_lookup (example_bus example_entries) ''BAZ'' = Inl ElsterInvalidName"
    using C9_directory_lookup [OF init, of "''BAZ''"]
    by (simp add: example_config_def example_entries_def)
  have present: "config_lookup (example_bus example_entries) ''FOO''
      = Inr (hex_value ''180'', hex_value ''deaf'', None)"
    using C9_directory_lookup [OF init, of "''FOO''", THEN conjunct2, rule_format,
        of "[\<lparr>entry_name = ''FOO'', entry_index = ''480.000c'', entry_format = Some ''mil_val''\<rparr>,
             \<lparr>entry_name = ''BAR'', entry_index = ''301.0001'', entry_format = Some ''dec_val''\<rparr>]"
           "\<lparr>entry_name = ''FOO'', entry_index = ''180.deaf'', entry_format = None\<rparr>"
           "[]" "''180''" "''deaf''"]
      entries hex by simp
  show ?thesis
    using init absent present by (simp add: hex_value_def hex_digit_val_def hex_digit_def)
qed

section \<open>Properties of the value formatter\<close>

lemma round_half_even_near:
  assumes "\<bar>x - of_int v\<bar> < 1 / 2"
  shows "round_half_even x = v"
proof (cases "of_int v \<le> x")
  case True
  with assms have "\<lfloor>x\<rfloor> = v" by (intro floor_unique) linarith+
  with assms True show ?thesis by (simp add: round_half_even_def Let_def)
next
  case False
  with assms have "\<lfloor>x\<rfloor> = v - 1" by (intro floor_unique) (simp, linarith+)
  with assms False show ?thesis by (simp add: round_half_even_def Let_def)
qed

text \<open>
  A double within the relative error \<open>1 / 2 ^ 53\<close> of \<open>v / 10 ^ p\<close>, for a 16-bit \<open>v\<close>, is
  not negative and rounds to the digits of \<open>v\<close>.
\<close>

lemma float_close_scaled:
  assumes "0 \<le> v" and "v \<le> 65535" and "float_close q (of_int v / 10 ^ p)"
  shows "0 \<le> q" and "round_half_even (\<bar>q\<bar> * 10 ^ p) = v"
proof -
  let ?x = "of_int v / 10 ^ p :: rat"
  have x0: "0 \<le> ?x" using assms(1) by simp
  have close: "\<bar>q - ?x\<bar> \<le> ?x / 2 ^ 53"
    using assms(3) x0 by (simp add: float_close_def)
  have "?x / 2 ^ 53 \<le> ?x" using x0 by (simp add: field_simps)
  with close show q0: "0 \<le> q" by linarith
  have "\<bar>q - ?x\<bar> * 10 ^ p \<le> (?x / 2 ^ 53) * 10 ^ p"
    using close by (intro mult_right_mono) simp_all
  moreover have "\<bar>q - ?x\<bar> * 10 ^ p = \<bar>q * 10 ^ p - of_int v\<bar>"
  proof -
    have "\<bar>q - ?x\<bar> * 10 ^ p = \<bar>(q - ?x) * 10 ^ p\<bar>" by (simp add: abs_mult)
    also have "(q - ?x) * 10 ^ p = q * 10 ^ p - of_int v" by (simp add: field_simps)
    finally show ?thesis .
  qed
  moreover have "(?x / 2 ^ 53) * 10 ^ p = of_int v / 2 ^ 53" by simp
  moreover have "(of_int v :: rat) / 2 ^ 53 < 1 / 2"
  proof -
    have "(of_int v :: rat) \<le> 65535" using assms(2) by simp
    then show ?thesis by simp
  qed
  ultimately have "\<bar>q * 10 ^ p - of_int v\<bar> < 1 / 2" by linarith
  then have "round_half_even (q * 10 ^ p) = v" by (rule round_half_even_near)
  with q0 show "round_half_even (\<bar>q\<bar> * 10 ^ p) = v" by simp
qed

lemma digit_split_1:
  fixes n :: nat
  shows "n mod 1000 div 100 = n div 100 mod 10"
proof -
  have "n mod (100 * 10) = 100 * (n div 100 mod 10) + n mod 100"
    by (rule mod_mult2_eq)
  then have "n mod 1000 div 100 = (100 * (n div 100 mod 10) + n mod 100) div 100"
    by simp
  also have "\<dots> = n div 100 mod 10"
    by simp
  finally show ?thesis .
qed

lemma digit_split_2:
  fixes n :: nat
  shows "n mod 1000 div 10 mod 10 = n div 10 mod 10"
proof -
  have "n mod (10 * 100) = 10 * (n div 10 mod 100) + n mod 10"
    by (rule mod_mult2_eq)
  then have "n mod 1000 div 10 = (10 * (n div 10 mod 100) + n mod 10) div 10"
    by simp
  also have "\<dots> = n div 10 mod 100"
    by simp
  finally have "n mod 1000 div 10 mod 10 = n div 10 mod 100 mod 10" by simp
  then show ?thesis by (simp add: mod_mod_cancel)
qed

lemma digit_split_3:
  fixes n :: nat
  shows "n mod 1000 mod 10 = n mod 10"
  by (simp add: mod_mod_cancel)

lemma zero_pad_three:
  "zero_pad 3 [a] = [CHR ''0'', CHR ''0'', a]"
  "zero_pad 3 [a, b] = [CHR ''0'', a, b]"
  "zero_pad 3 [a, b, c] = [a, b, c]"
  by (simp_all add: zero_pad_def numeral_eq_Suc)

lemma digit_char_0: "digit_char 0 = CHR ''0''"
  by (simp add: digit_char_def)

lemma dec_digits_one: "n < 10 \<Longrightarrow> dec_digits n = [digit_char n]"
  by (simp add: dec_digits.simps [of n])

lemma dec_digits_two:
  "10 \<le> n \<Longrightarrow> n < 100 \<Longrightarrow> dec_digits n = [digit_char (n div 10), digit_char (n mod 10)]"
  by (simp add: dec_digits.simps [of n] dec_digits_one)

lemma dec_digits_three:
  assumes "100 \<le> n" and "n < 1000"
  shows "dec_digits n = [digit_char (n div 100), digit_char (n div 10 mod 10), digit_char (n mod 10)]"
proof -
  have a: "10 \<le> n div 10" "n div 10 < 100" using assms by simp_all
  have b: "n div 10 div 10 = n div 100" by (simp add: div_mult2_eq)
  show ?thesis
    using assms by (simp add: dec_digits.simps [of n] dec_digits_two [OF a] b)
qed

lemma zero_pad_dec_digits:
  assumes "n < 1000"
  shows "zero_pad 3 (dec_digits n)
           = [digit_char (n div 100 mod 10), digit_char (n div 10 mod 10), digit_char (n mod 10)]"
proof -
  consider "n < 10" | "10 \<le> n" "n < 100" | "100 \<le> n" by linarith
  then show ?thesis
  proof cases
    case 1
    then show ?thesis
      by (simp add: dec_digits_one zero_pad_three digit_char_0)
  next
    case 2
    then show ?thesis
      by (simp add: dec_digits_two zero_pad_three digit_char_0)
  next
    case 3
    then have "n div 100 < 10" using assms by simp
    with 3 assms show ?thesis
      by (simp add: dec_digits_three zero_pad_three)
  qed
qed

lemma format_tenths:
  assumes "0 \<le> v" and "v \<le> 65535" and "float_close q (of_int v / 10)"
  shows "format_f 1 q = dec_digits (nat (v div 10)) @ ''.'' @ [digit_char (nat (v mod 10))]"
proof -
  have q: "0 \<le> q" "round_half_even (\<bar>q\<bar> * 10 ^ 1) = v"
    using float_close_scaled [of v q 1] assms by simp_all
  have d: "nat v div 10 = nat (v div 10)" "nat v mod 10 = nat (v mod 10)"
    using assms(1) by (simp_all add: nat_div_distrib nat_mod_distrib)
  have "nat (v mod 10) < 10" using assms(1) by simp
  then have "zero_pad 1 (dec_digits (nat (v mod 10))) = [digit_char (nat (v mod 10))]"
    by (simp add: dec_digits_one zero_pad_def)
  moreover have "format_f 1 q = dec_digits (nat v div 10) @ CHR ''.'' # zero_pad 1 (dec_digits (nat v mod 10))"
    using q by (simp add: format_f_def Let_def)
  ultimately show ?thesis
    by (simp add: d)
qed

lemma format_thousandths:
  assumes "0 \<le> v" and "v \<le> 65535" and "float_close q (of_int v / 1000)"
  shows "format_f 3 q = dec_digits (nat (v div 1000)) @ ''.'' @
           [digit_char (nat (v div 100 mod 10)), digit_char (nat (v div 10 mod 10)),
            digit_char (nat (v mod 10))]"
proof -
  have q: "0 \<le> q" "round_half_even (\<bar>q\<bar> * 10 ^ 3) = v"
    using float_close_scaled [of v q 3] assms by simp_all
  have d: "nat v div 1000 = nat (v div 1000)"
    using assms(1) by (simp add: nat_div_distrib)
  have m: "nat v mod 1000 < 1000" by simp
  have e: "nat v div 100 mod 10 = nat (v div 100 mod 10)"
          "nat v div 10 mod 10 = nat (v div 10 mod 10)"
          "nat v mod 10 = nat (v mod 10)"
    using assms(1) by (simp_all add: nat_div_distrib nat_mod_distrib)
  have "format_f 3 q = dec_digits (nat v div 1000) @ CHR ''.'' # zero_pad 3 (dec_digits (nat v mod 1000))"
    using q by (simp add: format_f_def Let_def)
  then show ?thesis
    by (simp add: d zero_pad_dec_digits [OF m] digit_split_1 digit_split_2 digit_split_3 e)
qed

lemma byte_swap_arith:
  assumes "0 \<le> v" and "v \<le> 65535"
  shows "push_bit 8 (v AND 0xff) OR drop_bit 8 v = (v mod 256) * 256 + v div (256::int)"
proof -
  have lo: "n < 16" if "bit v n" for n
    using bit_below [of v 16 n] assms that by simp
  have "push_bit 8 (v AND mask 8) + drop_bit 8 v = push_bit 8 (v AND mask 8) OR drop_bit 8 v"
    by (rule disjunctive_add) (auto simp add: bit_simps dest: lo)
  moreover have "v AND mask 8 = v mod 256"
    by (simp add: take_bit_eq_mask [symmetric] take_bit_eq_mod)
  ultimately show ?thesis
    by (simp add: mask_255 push_bit_eq_mult drop_bit_eq_div)
qed

lemma overflow_bound: "(65535::int) < 2 ^ 1024 - 2 ^ 970"
proof -
  have small: "(65536::int) = 2 ^ 16" by simp
  have "(2::int) ^ 16 \<le> 2 ^ 970" by (rule power_increasing) simp_all
  moreover have "(2::int) ^ 970 + 2 ^ 970 \<le> 2 ^ 1024"
  proof -
    have "(2::int) ^ 970 + 2 ^ 970 = 2 ^ 971" by simp
    also have "\<dots> \<le> 2 ^ 1024" by (rule power_increasing) simp_all
    finally show ?thesis .
  qed
  ultimately show ?thesis using small by linarith
qed

lemma no_float_overflow:
  assumes "0 \<le> v" and "v \<le> 65535"
  shows "\<not> float_overflow v"
  using assms overflow_bound by (simp add: float_overflow_def)

text \<open>
  Claim C8. For a 16-bit value, with the float divisions accurate to the relative error
  of a double: without a format (None or the empty string) the result is the raw
  integer; \<open>dec_val\<close> gives the digits of the value divided by ten, a point and one
  fractional digit; \<open>mil_val\<close> gives the digits of the value divided by a thousand, a
  point and three fractional digits; \<open>little_endian\<close> gives the decimal digits of the
  integer that has the two bytes of the value swapped.
\<close>

theorem C8_formatted_value:
  assumes "0 \<le> v" and "v \<le> 65535" and "msg_value self = Some v"
    and "float_close (fd (of_int v) 10) (of_int v / 10)"
    and "float_close (fd (of_int v) 1000) (of_int v / 1000)"
  shows "(msg_fmt self = None \<or> msg_fmt self = Some [] \<longrightarrow>
            formatted_value fd self = Inr (PyInt v))
       \<and> (msg_fmt self = Some ''dec_val'' \<longrightarrow>
            formatted_value fd self =
              Inr (PyStr (dec_digits (nat (v div 10)) @ ''.'' @ [digit_char (nat (v mod 10))])))
       \<and> (msg_fmt self = Some ''mil_val'' \<longrightarrow>
            formatted_value fd self =
              Inr (PyStr (dec_digits (nat (v div 1000)) @ ''.'' @
                     [digit_char (nat (v div 100 mod 10)), digit_char (nat (v div 10 mod 10)),
                      digit_char (nat (v mod 10))])))
       \<and> (msg_fmt self = Some ''little_endian'' \<longrightarrow>
            formatted_value fd self = Inr (PyStr (int_str ((v mod 256) * 256 + v div 256)))
            \<and> (v mod 256) * 256 + v div 256 = push_bit 8 (v AND 0xff) OR drop_bit 8 v)"
proof (intro conjI impI)
  show "formatted_value fd self = Inr (PyInt v)"
    if "msg_fmt self = None \<or> msg_fmt self = Some []"
    using that assms(3) by (auto simp add: formatted_value_def)
  show "formatted_value fd self =
          Inr (PyStr (dec_digits (nat (v div 10)) @ ''.'' @ [digit_char (nat (v mod 10))]))"
    if "msg_fmt self = Some ''dec_val''"
    using that assms(3) format_tenths [OF assms(1,2,4)] no_float_overflow [OF assms(1,2)]
    by (simp add: formatted_value_def)
  show "formatted_value fd self =
          Inr (PyStr (dec_digits (nat (v div 1000)) @ ''.'' @
                 [digit_char (nat (v div 100 mod 10)), digit_char (nat (v div 10 mod 10)),
                  digit_char (nat (v mod 10))]))"
    if "msg_fmt self = Some ''mil_val''"
    using that assms(3) format_thousandths [OF assms(1,2,5)] no_float_overflow [OF assms(1,2)]
    by (simp add: formatted_value_def)
  show "formatted_value fd self = Inr (PyStr (int_str ((v mod 256) * 256 + v div 256)))"
    if "msg_fmt self = Some ''little_endian''"
    using that assms(3) byte_swap_arith [OF assms(1,2)] no_float_overflow [OF assms(1,2)]
    by (simp add: formatted_value_def)
  show "(v mod 256) * 256 + v div 256 = push_bit 8 (v AND 0xff) OR drop_bit 8 v"
    using byte_swap_arith [OF assms(1,2)] by simp
qed

text \<open>The format scenarios of the specification, with a division that does not round.\<close>

lemma exact_div_close: "float_close (exact_div x y) (x / y)"
  by (simp add: float_close_def exact_div_def)

theorem C8_formatted_value_witness:
  "formatted_value exact_div (example_response 0x007b (Some ''dec_val'')) = Inr (PyStr ''12.3'')
   \<and> formatted_value exact_div (example_response 1234 (Some ''mil_val'')) = Inr (PyStr ''1.234'')
   \<and> formatted_value exact_div (example_response 0x1234 (Some ''little_endian''))
       = Inr (PyStr ''13330'')
   \<and> (13330 :: int) = 0x3412
   \<and> formatted_value exact_div (example_response 0x1234 None) = Inr (PyInt 0x1234)"
proof -
  have a: "formatted_value exact_div (example_response 0x007b (Some ''dec_val'')) = Inr (PyStr ''12.3'')"
    using C8_formatted_value [of "0x007b" "example_response 0x007b (Some ''dec_val'')" exact_div]
      exact_div_close [of "of_int 0x007b" 10] exact_div_close [of "of_int 0x007b" 1000]
    by (simp add: example_response_def dec_digits.simps digit_char_def)
  have b: "formatted_value exact_div (example_response 1234 (Some ''mil_val'')) = Inr (PyStr ''1.234'')"
    using C8_formatted_value [of 1234 "example_response 1234 (Some ''mil_val'')" exact_div]
      exact_div_close [of "of_int 1234" 10] exact_div_close [of "of_int 1234" 1000]
    by (simp add: example_response_def dec_digits.simps digit_char_def)
  have c: "formatted_value exact_div (example_response 0x1234 (Some ''little_endian''))
       = Inr (PyStr ''13330'')"
    using C8_formatted_value [of "0x1234" "example_response 0x1234 (Some ''little_endian'')" exact_div]
      exact_div_close [of "of_int 0x1234" 10] exact_div_close [of "of_int 0x1234" 1000]
    by (simp add: example_response_def int_str_def dec_digits.simps digit_char_def)
  have d: "formatted_value exact_div (example_response 0x1234 None) = Inr (PyInt 0x1234)"
    using C8_formatted_value [of "0x1234" "example_response 0x1234 None" exact_div]
      exact_div_close [of "of_int 0x1234" 10] exact_div_close [of "of_int 0x1234" 1000]
    by (simp add: example_response_def)
  from a b c d show ?thesis by simp
qed

lemma ElsterBus_init_formats:
  "ElsterBus_init
       (config\<lparr>data_entries := map (\<lambda>x. x\<lparr>entry_format := g x\<rparr>) (data_entries config)\<rparr>)
       simulate = Inl e
     \<longleftrightarrow> ElsterBus_init config simulate = Inl e"
  by (simp add: ElsterBus_init_def bind_r_def split: sum.splits)

lemma formatted_value_unformatted:
  assumes "msg_value self = Some v" and "msg_fmt self = None \<or> msg_fmt self = Some []"
  shows "formatted_value fd self = Inr (PyInt v)"
  using assms by (auto simp add: formatted_value_def)

lemma formatted_value_formatted:
  assumes "msg_value self = Some v" and "\<not> float_overflow v"
    and "msg_fmt self = Some f" and "f \<noteq> []"
  shows "formatted_value fd self =
           (if f = ''dec_val'' then Inr (PyStr (format_f 1 (fd (of_int v) 10)))
            else if f = ''mil_val'' then Inr (PyStr (format_f 3 (fd (of_int v) 1000)))
            else if f = ''little_endian''
              then Inr (PyStr (int_str (push_bit 8 (v AND 0xff) OR drop_bit 8 v)))
            else Inl KeyError)"
  using assms by (simp add: formatted_value_def)

lemma formatted_value_KeyError_iff:
  assumes "msg_value self = Some v" and "\<not> float_overflow v"
  shows "formatted_value fd self = Inl KeyError
           \<longleftrightarrow> (\<exists>f. msg_fmt self = Some f \<and> f \<noteq> []
                    \<and> f \<noteq> ''dec_val'' \<and> f \<noteq> ''mil_val'' \<and> f \<noteq> ''little_endian'')"
proof (cases "msg_fmt self = None \<or> msg_fmt self = Some []")
  case True
  then show ?thesis
    using formatted_value_unformatted [OF assms(1) True, of fd] by auto
next
  case False
  then obtain f where f: "msg_fmt self = Some f" "f \<noteq> []" by auto
  show ?thesis
    using formatted_value_formatted [OF assms f, of fd] f by simp
qed

lemma formatted_value_otherwise:
  assumes "msg_value self = Some v" and "\<not> float_overflow v"
    and "formatted_value fd self \<noteq> Inl KeyError"
  shows "\<exists>r. formatted_value fd self = Inr r"
proof (cases "msg_fmt self = None \<or> msg_fmt self = Some []")
  case True
  then show ?thesis
    using formatted_value_unformatted [OF assms(1) True, of fd] by simp
next
  case False
  then obtain f where f: "msg_fmt self = Some f" "f \<noteq> []" by auto
  show ?thesis
    using formatted_value_formatted [OF assms(1,2) f, of fd] assms(3) by (simp split: if_splits)
qed

text \<open>
  Claim C7, as amended. An unrecognized format causes no failure when the directory is
  loaded: whether \<open>ElsterBus.__init__\<close> fails, and with which error, is the same
  whatever the formats of the entries are. The failure comes when the format is
  applied: \<open>formatted_value\<close> of a message with a 16-bit value raises KeyError exactly
  when the format is a non-empty string other than \<open>dec_val\<close>, \<open>mil_val\<close> and
  \<open>little_endian\<close>, and returns a value otherwise.
\<close>

theorem C7_format_checked_at_apply:
  "(ElsterBus_init
        (config\<lparr>data_entries := map (\<lambda>x. x\<lparr>entry_format := g x\<rparr>) (data_entries config)\<rparr>)
        simulate = Inl e
      \<longleftrightarrow> ElsterBus_init config simulate = Inl e)
   \<and> (0 \<le> v \<and> v \<le> 65535 \<and> msg_value self = Some v \<longrightarrow>
        (formatted_value fd self = Inl KeyError
           \<longleftrightarrow> (\<exists>f. msg_fmt self = Some f \<and> f \<noteq> []
                    \<and> f \<noteq> ''dec_val'' \<and> f \<noteq> ''mil_val'' \<and> f \<noteq> ''little_endian''))
        \<and> (formatted_value fd self \<noteq> Inl KeyError \<longrightarrow> (\<exists>r. formatted_value fd self = Inr r)))"
  using ElsterBus_init_formats [where config = config and g = g and simulate = simulate and e = e]
    no_float_overflow [of v]
    formatted_value_KeyError_iff [where self = self and v = v and fd = fd]
    formatted_value_otherwise [where self = self and v = v and fd = fd]
  by blast

text \<open>
  The example directory loads, so it loads with every format replaced by \<open>bogus\<close>;
  and the format \<open>dec_val\<close>, which an entry of the example directory has, applies.
\<close>

theorem C7_format_checked_at_apply_witness:
  "ElsterBus_init
       (example_config (map (\<lambda>x. x\<lparr>entry_format := Some ''bogus''\<rparr>) example_entries)) False
     \<noteq> Inl ValueError
   \<and> formatted_value exact_div (example_response 0x007b (Some ''dec_val'')) \<noteq> Inl KeyError
   \<and> isl (formatted_value exact_div (example_response 0x007b (Some ''dec_val''))) = False"
proof -
  have v: "msg_value (example_response 0x007b (Some ''dec_val'')) = Some 0x007b"
    by (simp add: example_response_def)
  have fmt: "msg_fmt (example_response 0x007b (Some ''dec_val'')) = Some ''dec_val''"
    by (simp add: example_response_def)
  have load: "ElsterBus_init (example_config example_entries) False \<noteq> Inl ValueError"
    by (simp add: example_bus_init)
  have cfg: "(example_config example_entries)
        \<lparr>data_entries := map (\<lambda>x. x\<lparr>entry_format := Some ''bogus''\<rparr>)
                          (data_entries (example_config example_entries))\<rparr>
      = example_config (map (\<lambda>x. x\<lparr>entry_format := Some ''bogus''\<rparr>) example_entries)"
    by (simp add: example_config_def)
  show ?thesis
    using C7_format_checked_at_apply [where config = "example_config example_entries"
        and g = "\<lambda>x. Some ''bogus''" and simulate = False and e = ValueError
        and v = "0x007b" and self = "example_response 0x007b (Some ''dec_val'')"
        and fd = exact_div]
      v fmt load cfg
    by auto
qed

text \<open>
  The claim as stated fails for an entry with the format \<open>bogus\<close>: the directory is
  built, the lookup of the entry returns that format, and the failure comes when the
  format is applied to a value.
\<close>

theorem C7_unknown_format_counterexample:
  "ElsterBus_init
       (example_config [\<lparr>entry_name = ''FOO'', entry_index = ''180.deaf'', entry_format = Some ''bogus''\<rparr>])
       False
     = Inr (example_bus [\<lparr>entry_name = ''FOO'', entry_index = ''180.deaf'', entry_format = Some ''bogus''\<rparr>])
   \<and> config_lookup
       (example_bus [\<lparr>entry_name = ''FOO'', entry_index = ''180.deaf'', entry_format = Some ''bogus''\<rparr>])
       ''FOO''
     = Inr (0x180, 0xdeaf, Some ''bogus'')
   \<and> formatted_value exact_div (example_response 0xdead (Some ''bogus'')) = Inl KeyError"
  by (simp add: example_bus_init example_bus_def config_lookup_def py_int16_def is_space_def
      hex_digit_def bind_r_def formatted_value_def float_overflow_def example_response_def)

section \<open>Properties of the session\<close>

lemma bus_recv_frame:
  assumes "pending w = (a, m) # rest" and "a \<le> clock w + max 0 t"
  shows "bus_recv w t = (Some m, received w t a)"
  using assms by (simp add: bus_recv_def received_def)

lemma bus_recv_nothing:
  assumes "pending w = [] \<or> clock w + max 0 t < fst (hd (pending w))"
  shows "bus_recv w t = (None, timed_out w t)"
proof (cases "pending w")
  case Nil
  then show ?thesis by (simp add: bus_recv_def timed_out_def)
next
  case (Cons x rest)
  obtain a m where x: "x = (a, m)" by (cases x)
  with Cons assms have "\<not> a \<le> clock w + max 0 t" by simp
  with Cons x show ?thesis by (simp add: bus_recv_def timed_out_def)
qed

lemma decode_seven_errors:
  assumes "decode_elster_data frame 7 = Inl e"
  shows "e = ElsterDataSizeError \<or> e = ElsterDataByte2Error"
  using assms
  by (auto simp add: decode_elster_data_def bind_r_def item_def Let_def split: if_splits)

lemma init_frame_errors:
  assumes "ElsterMessage_init None None None (Some m) fmt = Inl e"
  shows "e = ElsterDataSizeError \<or> e = ElsterDataByte2Error"
  using assms decode_seven_errors [of "data m" e]
  by (auto simp add: ElsterMessage_init_def bind_r_def split: sum.splits)

lemma init_no_frame: "ElsterMessage_init None None None None fmt = Inl TypeError"
  by (simp add: ElsterMessage_init_def)

lemma matching_response_iff:
  "matching_response self receiver m \<longleftrightarrow>
     (\<exists>msg. ElsterMessage_init None None None (Some m) fmt = Inr msg
        \<and> msg_type msg = TYPE_RESPONSE \<and> msg_sender msg = receiver
        \<and> msg_receiver msg = bus_sender self)"
  by (auto simp add: matching_response_def ElsterMessage_init_def bind_r_def split: sum.splits)

text \<open>The three ways an iteration of the loop can go.\<close>

lemma read_loop_deadline:
  assumes "\<not> clock w < start + timeout"
  shows "read_loop self receiver fmt timeout start w = (Inl ElsterReadTimedOut, w)"
  using assms by (simp add: read_loop.simps [of self receiver fmt timeout start w])

lemma read_loop_nothing:
  assumes "clock w < start + timeout"
    and "pending w = [] \<or> clock w + max 0 timeout < fst (hd (pending w))"
  shows "read_loop self receiver fmt timeout start w = (Inl TypeError, timed_out w timeout)"
  using assms(1) bus_recv_nothing [OF assms(2)]
  by (simp add: read_loop.simps [of self receiver fmt timeout start w] init_no_frame)

lemma read_loop_frame:
  assumes "clock w < start + timeout"
    and "pending w = (a, m) # rest" and "a \<le> clock w + max 0 timeout"
  shows "read_loop self receiver fmt timeout start w =
           (if matching_response self receiver m
            then (ElsterMessage_init None None None (Some m) fmt, received w timeout a)
            else read_loop self receiver fmt timeout start
                   (case ElsterMessage_init None None None (Some m) fmt of
                      Inl e \<Rightarrow> (received w timeout a)\<lparr>printed := printed w @ [e]\<rparr>
                    | Inr msg \<Rightarrow> received w timeout a))"
proof (cases "ElsterMessage_init None None None (Some m) fmt")
  case (Inl e)
  then have "is_ElsterError e" using init_frame_errors [OF Inl] by auto
  moreover have "\<not> matching_response self receiver m"
    using Inl matching_response_iff [of self receiver m fmt] by simp
  ultimately show ?thesis
    using assms(1) Inl bus_recv_frame [OF assms(2,3)]
    by (simp add: read_loop.simps [of self receiver fmt timeout start w] received_def)
next
  case (Inr msg)
  then show ?thesis
    using assms(1) bus_recv_frame [OF assms(2,3)] matching_response_iff [of self receiver m fmt]
    by (simp add: read_loop.simps [of self receiver fmt timeout start w])
qed

text \<open>The world in which the loop goes on after a frame that it discards.\<close>

lemma discarded_world:
  fixes w :: world
  defines "w2 \<equiv> \<lambda>t a r. (case r :: error + ElsterMessage of
                        Inl e \<Rightarrow> (received w t a)\<lparr>printed := printed w @ [e]\<rparr>
                      | Inr msg \<Rightarrow> received w t a)"
  shows "pending (w2 t a r) = tl (pending w)" and "clock (w2 t a r) = max (clock w) a"
  by (simp_all add: w2_def received_def split: sum.splits)

lemma read_loop_returns_first_match:
  assumes "pending w = fs"
    and "read_loop self receiver fmt timeout start w = (Inr msg, w')"
  shows "\<exists>pre a m. fs = pre @ (a, m) # pending w'
           \<and> (\<forall>x \<in> set pre. \<not> matching_response self receiver (snd x))
           \<and> matching_response self receiver m
           \<and> ElsterMessage_init None None None (Some m) fmt = Inr msg"
  using assms
proof (induction fs arbitrary: w)
  case Nil
  then show ?case
    using read_loop_deadline [of w start timeout self receiver fmt]
      read_loop_nothing [of w start timeout self receiver fmt]
    by (cases "clock w < start + timeout") simp_all
next
  case (Cons x rest)
  obtain a m where x: "x = (a, m)" by (cases x)
  have running: "clock w < start + timeout"
    using Cons.prems(2) read_loop_deadline [of w start timeout self receiver fmt]
    by (cases "clock w < start + timeout") simp_all
  have arrived: "a \<le> clock w + max 0 timeout"
    using Cons.prems x running read_loop_nothing [of w start timeout self receiver fmt]
    by (cases "a \<le> clock w + max 0 timeout") simp_all
  have pw: "pending w = (a, m) # rest" using Cons.prems(1) x by simp
  note step = read_loop_frame [OF running pw arrived, of self receiver fmt]
  show ?case
  proof (cases "matching_response self receiver m")
    case True
    with step Cons.prems(2) have "ElsterMessage_init None None None (Some m) fmt = Inr msg"
      and "w' = received w timeout a" by simp_all
    then have "x # rest = [] @ (a, m) # pending w'"
      using pw x by (simp add: received_def)
    with True \<open>ElsterMessage_init None None None (Some m) fmt = Inr msg\<close> show ?thesis
      by (metis empty_iff list.set(1))
  next
    case False
    let ?w2 = "case ElsterMessage_init None None None (Some m) fmt of
                 Inl e \<Rightarrow> (received w timeout a)\<lparr>printed := printed w @ [e]\<rparr>
               | Inr msg \<Rightarrow> received w timeout a"
    have "pending ?w2 = rest"
      using discarded_world(1) [of w timeout a] pw by simp
    moreover have "read_loop self receiver fmt timeout start ?w2 = (Inr msg, w')"
      using step False Cons.prems(2) by simp
    ultimately obtain pre a' m' where pre: "rest = pre @ (a', m') # pending w'"
        "\<forall>x \<in> set pre. \<not> matching_response self receiver (snd x)"
        "matching_response self receiver m'"
        "ElsterMessage_init None None None (Some m') fmt = Inr msg"
      using Cons.IH [of ?w2] by blast
    then have "x # rest = ((a, m) # pre) @ (a', m') # pending w'"
      and "\<forall>x \<in> set ((a, m) # pre). \<not> matching_response self receiver (snd x)"
      using x False by simp_all
    with pre(3,4) show ?thesis by blast
  qed
qed

lemma read_loop_finds_match:
  assumes "pending w = pre @ (a, m) # post"
    and "\<forall>x \<in> set pre. \<not> matching_response self receiver (snd x)"
    and "matching_response self receiver m"
    and "\<forall>x \<in> set pre. fst x < start + timeout" and "a < start + timeout"
    and "start \<le> clock w" and "clock w < start + timeout"
  shows "\<exists>w'. read_loop self receiver fmt timeout start w
                = (ElsterMessage_init None None None (Some m) fmt, w') \<and> pending w' = post"
  using assms
proof (induction pre arbitrary: w)
  case Nil
  then have "a \<le> clock w + max 0 timeout" by simp
  with Nil show ?case
    using read_loop_frame [of w start timeout a m post self receiver fmt]
    by (simp add: received_def)
next
  case (Cons x pre)
  obtain a0 m0 where x: "x = (a0, m0)" by (cases x)
  have pw: "pending w = (a0, m0) # (pre @ (a, m) # post)" using Cons.prems(1) x by simp
  have a0: "a0 < start + timeout" using Cons.prems(4) x by simp
  then have arrived: "a0 \<le> clock w + max 0 timeout" using Cons.prems(6) by simp
  have skip: "\<not> matching_response self receiver m0" using Cons.prems(2) x by simp
  let ?w2 = "case ElsterMessage_init None None None (Some m0) fmt of
               Inl e \<Rightarrow> (received w timeout a0)\<lparr>printed := printed w @ [e]\<rparr>
             | Inr msg \<Rightarrow> received w timeout a0"
  have step: "read_loop self receiver fmt timeout start w
                = read_loop self receiver fmt timeout start ?w2"
    using read_loop_frame [OF Cons.prems(7) pw arrived, of self receiver fmt] skip by simp
  have "pending ?w2 = pre @ (a, m) # post"
    using discarded_world(1) [of w timeout a0] pw by simp
  moreover have "clock ?w2 = max (clock w) a0"
    using discarded_world(2) [of w timeout a0] by simp
  then have "start \<le> clock ?w2" and "clock ?w2 < start + timeout"
    using Cons.prems(6,7) a0 by simp_all
  ultimately show ?case
    using Cons.IH [of ?w2] Cons.prems(2,3,4,5) step by simp
qed

lemma read_loop_errors:
  assumes "pending w = fs"
    and "read_loop self receiver fmt timeout start w = (Inl e, w')"
  shows "e = ElsterReadTimedOut
       \<or> (e = TypeError \<and> (pending w' = [] \<or> clock w' < fst (hd (pending w'))))"
  using assms
proof (induction fs arbitrary: w)
  case Nil
  then show ?case
    using read_loop_deadline [of w start timeout self receiver fmt]
      read_loop_nothing [of w start timeout self receiver fmt]
    by (cases "clock w < start + timeout") (auto simp add: timed_out_def)
next
  case (Cons x rest)
  obtain a m where x: "x = (a, m)" by (cases x)
  have pw: "pending w = (a, m) # rest" using Cons.prems(1) x by simp
  show ?case
  proof (cases "clock w < start + timeout")
    case False
    then show ?thesis
      using Cons.prems(2) read_loop_deadline [of w start timeout self receiver fmt] by simp
  next
    case running: True
    show ?thesis
    proof (cases "a \<le> clock w + max 0 timeout")
      case False
      then have "read_loop self receiver fmt timeout start w = (Inl TypeError, timed_out w timeout)"
        using read_loop_nothing [OF running, of self receiver fmt] pw by simp
      with Cons.prems(2) False pw show ?thesis by (auto simp add: timed_out_def)
    next
      case arrived: True
      note step = read_loop_frame [OF running pw arrived, of self receiver fmt]
      let ?w2 = "case ElsterMessage_init None None None (Some m) fmt of
                   Inl e \<Rightarrow> (received w timeout a)\<lparr>printed := printed w @ [e]\<rparr>
                 | Inr msg \<Rightarrow> received w timeout a"
      show ?thesis
      proof (cases "matching_response self receiver m")
        case True
        then obtain msg where "ElsterMessage_init None None None (Some m) fmt = Inr msg"
          using matching_response_iff [of self receiver m fmt] by blast
        with step True Cons.prems(2) show ?thesis by simp
      next
        case False
        have "pending ?w2 = rest"
          using discarded_world(1) [of w timeout a] pw by simp
        moreover have "read_loop self receiver fmt timeout start ?w2 = (Inl e, w')"
          using step False Cons.prems(2) by simp
        ultimately show ?thesis by (rule Cons.IH)
      qed
    qed
  qed
qed

text \<open>
  \<open>read\<close> for a session on a real bus, once the addresses are resolved: with explicit
  addresses, or by a name that the directory resolves.
\<close>

lemma read_resolved:
  assumes "\<not> bus_simulate self"
    and "(name = None \<or> name = Some []) \<and> receiver = Some r \<and> register = Some g \<and> fmt = f
         \<or> (\<exists>n. name = Some n \<and> n \<noteq> [] \<and> config_lookup self n = Inr (r, g, f))"
  shows "read self name receiver register fmt timeout w =
           read_loop self (Some r) f timeout (clock w)
             (bus_send w \<lparr>arbitration_id = Some (bus_sender self),
                          data = encode_elster_data r g None\<rparr>)"
  using assms
  by (auto simp add: read_def bind_r_def ElsterMessage_init_def bus_send_def
      can_message.truncate_def)

text \<open>
  Claim C4. Let \<open>read\<close> run on a real bus with the destination address \<open>r\<close>, given
  explicitly or resolved from a name. If \<open>read\<close> returns a message, then it is the
  message of the first frame on the bus that satisfies the acceptance condition (kind
  Response, transport-level source equal to \<open>r\<close>, decoded receiver equal to the
  session's own address), and every frame before it fails the condition. Conversely,
  if the frames up to the first one that satisfies the condition arrive before the
  deadline, then every frame before it is discarded, whatever it is, and \<open>read\<close>
  returns the message of that frame.
\<close>

theorem C4_read_returns_first_match:
  assumes "\<not> bus_simulate self"
    and "(name = None \<or> name = Some []) \<and> receiver = Some r \<and> register = Some g \<and> fmt = f
         \<or> (\<exists>n. name = Some n \<and> n \<noteq> [] \<and> config_lookup self n = Inr (r, g, f))"
  shows "(read self name receiver register fmt timeout w = (Inr msg, w') \<longrightarrow>
            (\<exists>pre a m. pending w = pre @ (a, m) # pending w'
               \<and> (\<forall>x \<in> set pre. \<not> matching_response self (Some r) (snd x))
               \<and> matching_response self (Some r) m
               \<and> ElsterMessage_init None None None (Some m) f = Inr msg))
       \<and> (pending w = before @ (arrival, frame) # after
            \<and> (\<forall>x \<in> set before. \<not> matching_response self (Some r) (snd x))
            \<and> matching_response self (Some r) frame
            \<and> (\<forall>x \<in> set before. fst x < clock w + timeout) \<and> arrival < clock w + timeout
            \<and> 0 < timeout \<longrightarrow>
            (\<exists>w2 msg2. read self name receiver register fmt timeout w = (Inr msg2, w2)
               \<and> ElsterMessage_init None None None (Some frame) f = Inr msg2
               \<and> pending w2 = after))"
proof (intro conjI impI)
  let ?w1 = "bus_send w \<lparr>arbitration_id = Some (bus_sender self),
                          data = encode_elster_data r g None\<rparr>"
  note loop = read_resolved [OF assms, of timeout w]
  have w1: "pending ?w1 = pending w" "clock ?w1 = clock w"
    by (simp_all add: bus_send_def)
  show "\<exists>pre a m. pending w = pre @ (a, m) # pending w'
          \<and> (\<forall>x \<in> set pre. \<not> matching_response self (Some r) (snd x))
          \<and> matching_response self (Some r) m
          \<and> ElsterMessage_init None None None (Some m) f = Inr msg"
    if "read self name receiver register fmt timeout w = (Inr msg, w')"
    using that loop read_loop_returns_first_match [of ?w1 "pending w" self "Some r" f timeout "clock w" msg w'] w1
    by simp
  assume h: "pending w = before @ (arrival, frame) # after
            \<and> (\<forall>x \<in> set before. \<not> matching_response self (Some r) (snd x))
            \<and> matching_response self (Some r) frame
            \<and> (\<forall>x \<in> set before. fst x < clock w + timeout) \<and> arrival < clock w + timeout
            \<and> 0 < timeout"
  then obtain w2 where w2: "read_loop self (Some r) f timeout (clock w) ?w1
        = (ElsterMessage_init None None None (Some frame) f, w2)" "pending w2 = after"
    using read_loop_finds_match [of ?w1 before arrival frame after self "Some r" "clock w" timeout f] w1
    by auto
  moreover obtain msg2 where "ElsterMessage_init None None None (Some frame) f = Inr msg2"
    using h matching_response_iff [of self "Some r" frame f] by blast
  ultimately show "\<exists>w2 msg2. read self name receiver register fmt timeout w = (Inr msg2, w2)
               \<and> ElsterMessage_init None None None (Some frame) f = Inr msg2
               \<and> pending w2 = after"
    using loop by simp
qed

text \<open>
  The session of the example directory reads \<open>FOO\<close>, register 0xdeaf of the device
  0x180, with a budget of 30. Four frames come before the answer: the response of
  another device, a frame from 0x180 of kind Request, a frame of three bytes, and a
  response from 0x180 to another session. All four are discarded.
\<close>

lemma example_lookup_FOO:
  "config_lookup (example_bus example_entries) ''FOO'' = Inr (0x180, 0xdeaf, None)"
  by (simp add: example_bus_def example_entries_def config_lookup_def py_int16_def
      is_space_def hex_digit_def bind_r_def)

theorem C4_read_returns_first_match_witness:
  "fst (read (example_bus example_entries) (Some ''FOO'') None None None 30
          (example_world
             [(1, stray_frame),
              (2, \<lparr>arbitration_id = Some 0x180, data = [0x21, 0x23, 0xfa, 0xde, 0xaf, 0xba, 0xbe]\<rparr>),
              (3, \<lparr>arbitration_id = Some 0x180, data = [0x22, 0x23, 0xfa]\<rparr>),
              (4, \<lparr>arbitration_id = Some 0x180, data = [0x22, 0x24, 0xfa, 0xde, 0xaf, 0xde, 0xad]\<rparr>),
              (5, answer_frame)]))
     = Inr \<lparr>arbitration_id = Some 0x180, data = [0x22, 0x23, 0xfa, 0xde, 0xaf, 0xde, 0xad],
            msg_fmt = None, msg_sender = Some 0x180, msg_type = 2, msg_receiver = 0x123,
            msg_register = 0xdeaf, msg_value = Some 0xdead\<rparr>"
proof -
  let ?self = "example_bus example_entries"
  let ?before = "[(1, stray_frame),
              (2, \<lparr>arbitration_id = Some 0x180, data = [0x21, 0x23, 0xfa, 0xde, 0xaf, 0xba, 0xbe]\<rparr>),
              (3, \<lparr>arbitration_id = Some 0x180, data = [0x22, 0x23, 0xfa]\<rparr>),
              (4, \<lparr>arbitration_id = Some 0x180, data = [0x22, 0x24, 0xfa, 0xde, 0xaf, 0xde, 0xad]\<rparr>)]"
  let ?w = "example_world (?before @ [(5, answer_frame)])"
  have sim: "\<not> bus_simulate ?self" by (simp add: example_bus_def)
  have resolved: "(Some ''FOO'' = None \<or> Some ''FOO'' = Some []) \<and> None = Some 0x180 \<and> None = Some 0xdeaf \<and> None = None
         \<or> (\<exists>n. Some ''FOO'' = Some n \<and> n \<noteq> [] \<and> config_lookup ?self n = Inr (0x180, 0xdeaf, None))"
    using example_lookup_FOO by simp
  have traffic: "pending ?w = ?before @ (5, answer_frame) # []" "clock ?w = 0"
    by (simp_all add: example_world_def)
  have skip: "\<forall>x \<in> set ?before. \<not> matching_response ?self (Some 0x180) (snd x)"
    by (simp add: matching_response_def stray_frame_def decode_elster_data_def bind_r_def
        item_def example_bus_def TYPE_RESPONSE_def)
  have match: "matching_response ?self (Some 0x180) answer_frame"
    by (simp add: matching_response_def answer_frame_def decode_elster_data_def bind_r_def
        item_def example_bus_def TYPE_RESPONSE_def)
  have early: "\<forall>x \<in> set ?before. fst x < clock ?w + 30" "5 < clock ?w + 30"
    by (simp_all add: example_world_def)
  have msg: "ElsterMessage_init None None None (Some answer_frame) None
       = Inr \<lparr>arbitration_id = Some 0x180, data = [0x22, 0x23, 0xfa, 0xde, 0xaf, 0xde, 0xad],
            msg_fmt = None, msg_sender = Some 0x180, msg_type = 2, msg_receiver = 0x123,
            msg_register = 0xdeaf, msg_value = Some 0xdead\<rparr>"
    by (simp add: ElsterMessage_init_def answer_frame_def decode_elster_data_def bind_r_def
        item_def)
  from C4_read_returns_first_match [OF sim resolved, THEN conjunct2, rule_format,
      of ?w ?before 5 answer_frame "[]" 30]
    traffic(1) skip match early
  obtain w2 msg2 where "read ?self (Some ''FOO'') None None None 30 ?w = (Inr msg2, w2)"
    and "ElsterMessage_init None None None (Some answer_frame) None = Inr msg2"
    by auto
  with msg show ?thesis by simp
qed

lemma example_bus_fields:
  shows "bus_sender (example_bus es) = 0x123" and "\<not> bus_simulate (example_bus es)"
  by (simp_all add: example_bus_def)

lemma example_request:
  "ElsterMessage_init (Some 0x123) (Some 0x180) (Some 0xdeaf) None f =
     Inr \<lparr>arbitration_id = Some 0x123, data = [0x31, 0x00, 0xfa, 0xde, 0xaf],
            msg_fmt = f, msg_sender = Some 0x123, msg_type = 1, msg_receiver = 0x180,
            msg_register = 0xdeaf, msg_value = None\<rparr>"
  by (simp add: ElsterMessage_init_def encode_request_bytes TYPE_REQUEST_def)

text \<open>
  Claim C5. In the receive loop, a failure to make a message of a received frame is a
  size error or a sentinel error, both of which \<open>except ElsterError\<close> catches; the
  iteration prints the error and the loop goes on with the next frame. If \<open>read\<close>,
  on a real bus and with resolved addresses, ends in an error, then the error is the
  timeout of the read, or it is the TypeError of an iteration in which \<open>recv\<close> returned
  no frame: it is never the decoding failure of a received frame.
\<close>

theorem C5_decode_failures_skipped:
  assumes "\<not> bus_simulate self"
    and "(name = None \<or> name = Some []) \<and> receiver = Some r \<and> register = Some g \<and> fmt = f
         \<or> (\<exists>n. name = Some n \<and> n \<noteq> [] \<and> config_lookup self n = Inr (r, g, f))"
  shows "(ElsterMessage_init None None None (Some m) f = Inl e \<longrightarrow>
            is_ElsterError e \<and> (e = ElsterDataSizeError \<or> e = ElsterDataByte2Error))
       \<and> (clock w1 < start + timeout \<and> pending w1 = (a, m) # rest
            \<and> a \<le> clock w1 + max 0 timeout
            \<and> ElsterMessage_init None None None (Some m) f = Inl e \<longrightarrow>
            read_loop self (Some r) f timeout start w1 =
              read_loop self (Some r) f timeout start
                ((received w1 timeout a)\<lparr>printed := printed w1 @ [e]\<rparr>))
       \<and> (read self name receiver register fmt timeout w = (Inl e', w') \<longrightarrow>
            e' = ElsterReadTimedOut
            \<or> (e' = TypeError \<and> (pending w' = [] \<or> clock w' < fst (hd (pending w')))))"
proof (intro conjI impI)
  show "is_ElsterError e" and "e = ElsterDataSizeError \<or> e = ElsterDataByte2Error"
    if "ElsterMessage_init None None None (Some m) f = Inl e"
    using init_frame_errors [OF that] by auto
  show "read_loop self (Some r) f timeout start w1 =
          read_loop self (Some r) f timeout start
            ((received w1 timeout a)\<lparr>printed := printed w1 @ [e]\<rparr>)"
    if h: "clock w1 < start + timeout \<and> pending w1 = (a, m) # rest
            \<and> a \<le> clock w1 + max 0 timeout
            \<and> ElsterMessage_init None None None (Some m) f = Inl e"
  proof -
    have "\<not> matching_response self (Some r) m"
      using h matching_response_iff [of self "Some r" m f] by simp
    then show ?thesis
      using h read_loop_frame [of w1 start timeout a m rest self "Some r" f] by simp
  qed
  show "e' = ElsterReadTimedOut
          \<or> (e' = TypeError \<and> (pending w' = [] \<or> clock w' < fst (hd (pending w'))))"
    if "read self name receiver register fmt timeout w = (Inl e', w')"
    using that read_resolved [OF assms, of timeout w]
      read_loop_errors [OF refl, of self "Some r" f timeout "clock w" _ e' w']
    by simp
qed

text \<open>
  A frame of three bytes and a frame of seven zero bytes come before the answer: the
  first iteration prints the size error and goes on, and at the end both errors are
  printed and the answer is returned.
\<close>

theorem C5_decode_failures_skipped_witness:
  "read_loop (example_bus example_entries) (Some 0x180) None 30 0
       (example_world
          [(1, \<lparr>arbitration_id = Some 0x180, data = [0x22, 0x23, 0xfa]\<rparr>),
           (2, \<lparr>arbitration_id = Some 0x180, data = [0, 0, 0, 0, 0, 0, 0]\<rparr>),
           (3, answer_frame)])
     = read_loop (example_bus example_entries) (Some 0x180) None 30 0
         \<lparr>clock = 1,
          pending = [(2, \<lparr>arbitration_id = Some 0x180, data = [0, 0, 0, 0, 0, 0, 0]\<rparr>),
                     (3, answer_frame)],
          sent = [], recv_timeouts = [30], printed = [ElsterDataSizeError]\<rparr>
   \<and> printed (snd (read (example_bus example_entries) None (Some 0x180) (Some 0xdeaf) None 30
         (example_world
            [(1, \<lparr>arbitration_id = Some 0x180, data = [0x22, 0x23, 0xfa]\<rparr>),
             (2, \<lparr>arbitration_id = Some 0x180, data = [0, 0, 0, 0, 0, 0, 0]\<rparr>),
             (3, answer_frame)])))
     = [ElsterDataSizeError, ElsterDataByte2Error]
   \<and> isl (fst (read (example_bus example_entries) None (Some 0x180) (Some 0xdeaf) None 30
         (example_world
            [(1, \<lparr>arbitration_id = Some 0x180, data = [0x22, 0x23, 0xfa]\<rparr>),
             (2, \<lparr>arbitration_id = Some 0x180, data = [0, 0, 0, 0, 0, 0, 0]\<rparr>),
             (3, answer_frame)]))) = False"
proof -
  let ?self = "example_bus example_entries"
  let ?short = "\<lparr>arbitration_id = Some 0x180, data = [0x22, 0x23, 0xfa]\<rparr>"
  let ?zeros = "\<lparr>arbitration_id = Some 0x180, data = [0, 0, 0, 0, 0, 0, 0]\<rparr>"
  let ?w = "example_world [(1, ?short), (2, ?zeros), (3, answer_frame)]"
  have sim: "\<not> bus_simulate ?self" by (rule example_bus_fields)
  have resolved: "(None = None \<or> None = Some []) \<and> Some 0x180 = Some 0x180
         \<and> Some 0xdeaf = Some 0xdeaf \<and> None = None
         \<or> (\<exists>n. None = Some n \<and> n \<noteq> [] \<and> config_lookup ?self n = Inr (0x180, 0xdeaf, None))"
    by simp
  have short: "ElsterMessage_init None None None (Some ?short) None = Inl ElsterDataSizeError"
    by (simp add: ElsterMessage_init_def decode_elster_data_def bind_r_def)
  have first: "read_loop ?self (Some 0x180) None 30 0 ?w
      = read_loop ?self (Some 0x180) None 30 0
          ((received ?w 30 1)\<lparr>printed := printed ?w @ [ElsterDataSizeError]\<rparr>)"
    using C5_decode_failures_skipped [OF sim resolved, THEN conjunct2, THEN conjunct1, rule_format,
        of ?w 0 30 1 ?short "[(2, ?zeros), (3, answer_frame)]" ElsterDataSizeError] short
    by (simp add: example_world_def)
  have run: "read ?self None (Some 0x180) (Some 0xdeaf) None 30 ?w
      = (Inr \<lparr>arbitration_id = Some 0x180, data = [0x22, 0x23, 0xfa, 0xde, 0xaf, 0xde, 0xad],
              msg_fmt = None, msg_sender = Some 0x180, msg_type = 2, msg_receiver = 0x123,
              msg_register = 0xdeaf, msg_value = Some 0xdead\<rparr>,
         \<lparr>clock = 3, pending = [],
          sent = [\<lparr>arbitration_id = Some 0x123, data = [0x31, 0x00, 0xfa, 0xde, 0xaf]\<rparr>],
          recv_timeouts = [30, 30, 30],
          printed = [ElsterDataSizeError, ElsterDataByte2Error]\<rparr>)"
    by (simp add: read_def example_bus_fields example_request example_world_def
        answer_frame_def bus_send_def can_message.truncate_def read_loop.simps bus_recv_def
        ElsterMessage_init_def encode_request_bytes decode_elster_data_def bind_r_def item_def
        TYPE_RESPONSE_def)
  from first run show ?thesis
    by (simp add: received_def example_world_def)
qed

text \<open>
  Claim C2 fails on the code. The session reads \<open>FOO\<close> with a budget of 10. A frame
  of another device arrives at time 9 and is discarded; one unit of time remains until
  the deadline, but \<open>recv\<close> is called with the full timeout 10 again, so it blocks
  until the next frame arrives at time 18. \<open>read\<close> ends at 18, eight units after the
  budget has run out.
\<close>

theorem C2_recv_called_with_full_timeout:
  "read (example_bus example_entries) (Some ''FOO'') None None None 10
       (example_world [(9, stray_frame), (18, stray_frame)])
     = (Inl ElsterReadTimedOut,
        \<lparr>clock = 18, pending = [],
         sent = [\<lparr>arbitration_id = Some 0x123, data = [0x31, 0x00, 0xfa, 0xde, 0xaf]\<rparr>],
         recv_timeouts = [10, 10], printed = []\<rparr>)"
  by (simp add: read_def example_lookup_FOO example_bus_fields example_request
      example_world_def stray_frame_def bus_send_def can_message.truncate_def
      read_loop.simps bus_recv_def ElsterMessage_init_def encode_request_bytes
      decode_elster_data_def bind_r_def item_def TYPE_RESPONSE_def)

text \<open>
  Claim C3 fails on the code. On a bus where no frame arrives, \<open>recv\<close> returns None
  when its timeout has passed; the constructor \<open>ElsterMessage(msg=None, fmt=fmt)\<close> then
  takes the branch of a new request and shifts the receiver None, which raises
  TypeError. That is no \<open>ElsterError\<close>, so it leaves \<open>read\<close>, and
  \<open>ElsterReadTimedOut\<close> is not raised.
\<close>

theorem C3_silent_bus_raises_TypeError:
  "read (example_bus example_entries) (Some ''FOO'') None None None 30 (example_world [])
     = (Inl TypeError,
        \<lparr>clock = 30, pending = [],
         sent = [\<lparr>arbitration_id = Some 0x123, data = [0x31, 0x00, 0xfa, 0xde, 0xaf]\<rparr>],
         recv_timeouts = [30], printed = []\<rparr>)"
  by (simp add: read_def example_lookup_FOO example_bus_fields example_request
      example_world_def bus_send_def can_message.truncate_def read_loop.simps bus_recv_def
      ElsterMessage_init_def encode_request_bytes bind_r_def)

end
